theory Spec2Isabelle
  imports Main "HOL-Library.Word"
begin

unbundle bit_operations_syntax

section \<open>Limits (muscle\_rtos/drivers/limits.h)\<close>

definition SERVO_PWM_MIN_US :: "16 word" where
  "SERVO_PWM_MIN_US = 500"

definition SERVO_PWM_MAX_US :: "16 word" where
  "SERVO_PWM_MAX_US = 2500"

definition SERVO_PWM_NEUTRAL_US :: "16 word" where
  "SERVO_PWM_NEUTRAL_US = 1500"

definition SERVO_COUNT_TOTAL :: nat where
  "SERVO_COUNT_TOTAL = 13"

text \<open>\<open>HEARTBEAT_TIMEOUT_MS\<close>; the tick rate is 1 kHz (freertos\_config.h), so
  \<open>pdMS_TO_TICKS\<close> is the identity on the values used here.\<close>

definition HEARTBEAT_TIMEOUT_MS :: "32 word" where
  "HEARTBEAT_TIMEOUT_MS = 250"

definition pdMS_TO_TICKS :: "32 word \<Rightarrow> 32 word" where
  "pdMS_TO_TICKS ms = (ms * 1000) div 1000"

definition clamp_servo_us :: "16 word \<Rightarrow> 16 word" where
  "clamp_servo_us v =
     (if v < SERVO_PWM_MIN_US then SERVO_PWM_MIN_US
      else if v > SERVO_PWM_MAX_US then SERVO_PWM_MAX_US
      else v)"

section \<open>PCA9685 driver (muscle\_rtos/drivers/pca9685.c)\<close>

definition PCA9685_CHANNEL_COUNT :: "8 word" where
  "PCA9685_CHANNEL_COUNT = 16"

text \<open>One register write of \<open>pca9685_set_pwm_raw\<close>: the channel and the ON and OFF
  tick counts that are sent over the bus.\<close>

record pwm_write =
  pw_channel :: "8 word"
  pw_on :: "16 word"
  pw_off :: "16 word"

text \<open>The pulse width after the two saturating assignments of \<open>pca9685_set_pwm_us\<close>.\<close>

definition pca9685_saturate_us :: "16 word \<Rightarrow> 16 word" where
  "pca9685_saturate_us pulse_us =
     (let p1 = (if pulse_us < SERVO_PWM_MIN_US then SERVO_PWM_MIN_US else pulse_us);
          p2 = (if p1 > SERVO_PWM_MAX_US then SERVO_PWM_MAX_US else p1)
      in p2)"

text \<open>\<open>(uint16_t)(((uint32_t)pulse_us * 4096) / 20000)\<close>\<close>

definition pca9685_us_to_ticks :: "16 word \<Rightarrow> 16 word" where
  "pca9685_us_to_ticks pulse_us =
     ucast (((ucast pulse_us :: 32 word) * 4096) div 20000)"

text \<open>The driver returns \<open>-1\<close> for a channel out of range and writes nothing; otherwise
  the bus write is issued. The bus result is not inspected by any caller in the motion
  path, so the model returns the write that was issued.\<close>

definition pca9685_set_pwm_raw :: "8 word \<Rightarrow> 16 word \<Rightarrow> 16 word \<Rightarrow> pwm_write option" where
  "pca9685_set_pwm_raw channel on off =
     (if channel \<ge> PCA9685_CHANNEL_COUNT then None
      else Some \<lparr>pw_channel = channel, pw_on = on, pw_off = off\<rparr>)"

definition pca9685_set_pwm_us :: "8 word \<Rightarrow> 16 word \<Rightarrow> pwm_write option" where
  "pca9685_set_pwm_us channel pulse_us =
     (if channel \<ge> PCA9685_CHANNEL_COUNT then None
      else pca9685_set_pwm_raw channel 0
             (pca9685_us_to_ticks (pca9685_saturate_us pulse_us)))"

text \<open>Appending the write (if any) to the log of what reached the PWM chip.\<close>

definition pwm_emit :: "pwm_write option \<Rightarrow> pwm_write list \<Rightarrow> pwm_write list" where
  "pwm_emit w log = (case w of None \<Rightarrow> log | Some x \<Rightarrow> log @ [x])"

text \<open>\<open>pca9685_set_all_us\<close>: channels 0..15 in order.\<close>

definition pca9685_set_all_us :: "16 word \<Rightarrow> pwm_write list \<Rightarrow> pwm_write list" where
  "pca9685_set_all_us pulse_us log =
     foldl (\<lambda>l i. pwm_emit (pca9685_set_pwm_us (of_nat i) pulse_us) l) log [0..<16]"

section \<open>Fault flags (muscle\_rtos/safety/fault\_flags.h, fault\_flags.c)\<close>

definition FAULT_PACKET_MAGIC :: "32 word" where
  "FAULT_PACKET_MAGIC = push_bit 3 1"

definition FAULT_PACKET_VERSION :: "32 word" where
  "FAULT_PACKET_VERSION = push_bit 4 1"

definition FAULT_PACKET_CRC :: "32 word" where
  "FAULT_PACKET_CRC = push_bit 5 1"

definition FAULT_HEARTBEAT_TIMEOUT :: "32 word" where
  "FAULT_HEARTBEAT_TIMEOUT = push_bit 6 1"

definition FAULT_ESTOP_ACTIVE :: "32 word" where
  "FAULT_ESTOP_ACTIVE = push_bit 9 1"

section \<open>Safety state shared by the real-time tasks\<close>

datatype WatchdogState =
    WATCHDOG_STATE_NORMAL
  | WATCHDOG_STATE_TIMEOUT
  | WATCHDOG_STATE_HOLD
  | WATCHDOG_STATE_ESTOP

text \<open>The function pointers handed to \<open>watchdog_init\<close>: the callbacks that the two
  application entry files define, or \<open>NULL\<close>.\<close>

datatype WatchdogCallback =
    CB_NULL
  | CB_archive_on_watchdog_timeout
  | CB_v1_on_watchdog_timeout
  | CB_on_watchdog_estop

text \<open>The static variables of watchdog.c, fault\_flags.c and failsafe.c, and the log of
  writes that reached the PWM chip.\<close>

record safety =
  wd_s_state :: WatchdogState
  s_last_feed_tick :: "32 word"
  s_timeout_cb :: WatchdogCallback
  s_estop_cb :: WatchdogCallback
  s_fault_flags :: "32 word"
  s_estop_active :: bool
  pwm_log :: "pwm_write list"

definition fault_flags_set :: "32 word \<Rightarrow> 'a safety_scheme \<Rightarrow> 'a safety_scheme" where
  "fault_flags_set flag st = st\<lparr>s_fault_flags := s_fault_flags st OR flag\<rparr>"

definition fault_flags_clear :: "32 word \<Rightarrow> 'a safety_scheme \<Rightarrow> 'a safety_scheme" where
  "fault_flags_clear flag st = st\<lparr>s_fault_flags := s_fault_flags st AND NOT flag\<rparr>"

definition fault_flags_is_set :: "32 word \<Rightarrow> 'a safety_scheme \<Rightarrow> bool" where
  "fault_flags_is_set flag st = (s_fault_flags st AND flag \<noteq> 0)"

section \<open>Failsafe (muscle\_rtos/safety/failsafe.c)\<close>

definition failsafe_set_safe_pose :: "'a safety_scheme \<Rightarrow> 'a safety_scheme" where
  "failsafe_set_safe_pose st =
     st\<lparr>pwm_log := pca9685_set_all_us SERVO_PWM_NEUTRAL_US (pwm_log st)\<rparr>"

definition failsafe_enter_estop :: "'a safety_scheme \<Rightarrow> 'a safety_scheme" where
  "failsafe_enter_estop st =
     failsafe_set_safe_pose (fault_flags_set FAULT_ESTOP_ACTIVE (st\<lparr>s_estop_active := True\<rparr>))"

definition failsafe_enter_hold :: "'a safety_scheme \<Rightarrow> 'a safety_scheme" where
  "failsafe_enter_hold st = st"

text \<open>Calling a registered callback. \<open>on_watchdog_timeout\<close> of archive/app\_main.c has an
  empty body; the one of app\_main\_v1.c sets all servos to neutral; \<open>on_watchdog_estop\<close>
  is \<open>failsafe_enter_estop\<close> in both.\<close>

fun invoke_callback :: "WatchdogCallback \<Rightarrow> 'a safety_scheme \<Rightarrow> 'a safety_scheme" where
  "invoke_callback CB_NULL st = st"
| "invoke_callback CB_archive_on_watchdog_timeout st = st"
| "invoke_callback CB_v1_on_watchdog_timeout st =
     st\<lparr>pwm_log := pca9685_set_all_us SERVO_PWM_NEUTRAL_US (pwm_log st)\<rparr>"
| "invoke_callback CB_on_watchdog_estop st = failsafe_enter_estop st"

section \<open>Watchdog (muscle\_rtos/safety/watchdog.c)\<close>

definition WATCHDOG_CHECK_PERIOD_MS :: "32 word" where
  "WATCHDOG_CHECK_PERIOD_MS = 25"

text \<open>Every function that reads \<open>xTaskGetTickCount()\<close> takes the tick count \<open>now\<close>.\<close>

definition watchdog_init ::
  "WatchdogCallback \<Rightarrow> WatchdogCallback \<Rightarrow> 32 word \<Rightarrow> 'a safety_scheme \<Rightarrow> 'a safety_scheme" where
  "watchdog_init timeout_cb estop_cb now st =
     st\<lparr>s_timeout_cb := timeout_cb, s_estop_cb := estop_cb,
        s_last_feed_tick := now, wd_s_state := WATCHDOG_STATE_NORMAL\<rparr>"

definition watchdog_feed :: "32 word \<Rightarrow> 'a safety_scheme \<Rightarrow> 'a safety_scheme" where
  "watchdog_feed now st =
     (let st1 = st\<lparr>s_last_feed_tick := now\<rparr>;
          current = wd_s_state st1
      in if current = WATCHDOG_STATE_TIMEOUT \<or> current = WATCHDOG_STATE_HOLD
         then fault_flags_clear FAULT_HEARTBEAT_TIMEOUT (st1\<lparr>wd_s_state := WATCHDOG_STATE_NORMAL\<rparr>)
         else st1)"

definition watchdog_signal_estop :: "'a safety_scheme \<Rightarrow> 'a safety_scheme" where
  "watchdog_signal_estop st =
     (let st1 = fault_flags_set FAULT_ESTOP_ACTIVE (st\<lparr>wd_s_state := WATCHDOG_STATE_ESTOP\<rparr>)
      in if s_estop_cb st1 \<noteq> CB_NULL then invoke_callback (s_estop_cb st1) st1 else st1)"

text \<open>Returns the C return value (0 or \<open>-1\<close>) and the new state.\<close>

definition watchdog_clear_estop :: "32 word \<Rightarrow> 'a safety_scheme \<Rightarrow> int \<times> 'a safety_scheme" where
  "watchdog_clear_estop now st =
     (if wd_s_state st \<noteq> WATCHDOG_STATE_ESTOP then (- 1, st)
      else if now - s_last_feed_tick st < pdMS_TO_TICKS HEARTBEAT_TIMEOUT_MS
      then (0, fault_flags_clear FAULT_ESTOP_ACTIVE (st\<lparr>wd_s_state := WATCHDOG_STATE_NORMAL\<rparr>))
      else (- 1, st\<lparr>wd_s_state := WATCHDOG_STATE_HOLD\<rparr>))"

definition watchdog_get_state :: "'a safety_scheme \<Rightarrow> WatchdogState" where
  "watchdog_get_state st = wd_s_state st"

text \<open>The body of the loop of \<open>watchdog_task_entry\<close>, in its two consecutive
  \<open>if\<close> statements: first NORMAL to TIMEOUT, then TIMEOUT to HOLD.\<close>

definition watchdog_check_timeout :: "'a safety_scheme \<Rightarrow> 'a safety_scheme" where
  "watchdog_check_timeout st =
     (if wd_s_state st = WATCHDOG_STATE_NORMAL
      then (let st1 = fault_flags_set FAULT_HEARTBEAT_TIMEOUT (st\<lparr>wd_s_state := WATCHDOG_STATE_TIMEOUT\<rparr>)
            in if s_timeout_cb st1 \<noteq> CB_NULL then invoke_callback (s_timeout_cb st1) st1 else st1)
      else st)"

definition watchdog_check_hold :: "'a safety_scheme \<Rightarrow> 'a safety_scheme" where
  "watchdog_check_hold st =
     (if wd_s_state st = WATCHDOG_STATE_TIMEOUT
      then failsafe_enter_hold (st\<lparr>wd_s_state := WATCHDOG_STATE_HOLD\<rparr>)
      else st)"

definition watchdog_task_step :: "32 word \<Rightarrow> 'a safety_scheme \<Rightarrow> 'a safety_scheme" where
  "watchdog_task_step now st =
     (if wd_s_state st = WATCHDOG_STATE_ESTOP then st
      else (let elapsed = now - s_last_feed_tick st
            in if elapsed > pdMS_TO_TICKS HEARTBEAT_TIMEOUT_MS
               then watchdog_check_hold (watchdog_check_timeout st)
               else st))"

text \<open>\<open>n\<close> iterations of the task loop; \<open>vTaskDelayUntil\<close> wakes the task every
  \<open>WATCHDOG_CHECK_PERIOD_MS\<close>, so the iterations run at \<open>now\<close>, \<open>now + 25\<close>, ...\<close>

fun watchdog_task_entry :: "nat \<Rightarrow> 32 word \<Rightarrow> 'a safety_scheme \<Rightarrow> 'a safety_scheme" where
  "watchdog_task_entry 0 now st = st"
| "watchdog_task_entry (Suc n) now st =
     watchdog_task_entry n (now + pdMS_TO_TICKS WATCHDOG_CHECK_PERIOD_MS) (watchdog_task_step now st)"

section \<open>Interpolator (muscle\_rtos/motion\_runtime/interpolator.c)\<close>

datatype InterpMode = INTERP_MODE_FLOAT | INTERP_MODE_Q16

record interpolator =
  s_start_us :: "16 word list"
  s_target_us :: "16 word list"
  s_duration_ms :: "32 word"
  s_elapsed_ms :: "32 word"
  s_mode :: InterpMode
  s_active :: bool

definition TICK_PERIOD_MS :: "32 word" where
  "TICK_PERIOD_MS = 1000 div 50"

text \<open>\<open>memcpy\<close> of one pose array (13 channels).\<close>

definition memcpy_pose :: "16 word list \<Rightarrow> 16 word list" where
  "memcpy_pose src = take SERVO_COUNT_TOTAL src"

definition interpolator_start ::
  "16 word list \<Rightarrow> 16 word list \<Rightarrow> 32 word \<Rightarrow> InterpMode \<Rightarrow> interpolator" where
  "interpolator_start current_us target_us duration_ms mode =
     \<lparr>s_start_us = memcpy_pose current_us,
      s_target_us = memcpy_pose target_us,
      s_duration_ms = (if duration_ms > 0 then duration_ms else 1),
      s_elapsed_ms = 0,
      s_mode = mode,
      s_active = True\<rparr>"

text \<open>One channel of the Q16.16 branch: all arithmetic is 32-bit, the shift right of the
  signed product is arithmetic, and the result is truncated to 16 bits.\<close>

definition interp_q16 :: "32 word \<Rightarrow> 16 word \<Rightarrow> 16 word \<Rightarrow> 16 word" where
  "interp_q16 t_q16 start_us target_us =
     (let start = (ucast start_us :: 32 word);
          target = (ucast target_us :: 32 word);
          delta = target - start;
          interp = start + signed_drop_bit 16 (delta * t_q16)
      in ucast interp)"

text \<open>The float branch rounds in binary32 arithmetic, which is outside this model: the
  value it stores in one channel is the parameter \<open>flt start target elapsed duration\<close>.
  The function returns the C return value, the new interpolator state and the new
  contents of \<open>output_us\<close>.\<close>

definition interpolator_tick ::
  "(16 word \<Rightarrow> 16 word \<Rightarrow> 32 word \<Rightarrow> 32 word \<Rightarrow> 16 word) \<Rightarrow>
   interpolator \<Rightarrow> 16 word list \<Rightarrow> bool \<times> interpolator \<times> 16 word list" where
  "interpolator_tick flt ip output_us =
     (if \<not> s_active ip then (True, ip, output_us)
      else
        (let ip1 = ip\<lparr>s_elapsed_ms := s_elapsed_ms ip + TICK_PERIOD_MS\<rparr>
         in if s_elapsed_ms ip1 \<ge> s_duration_ms ip1
            then (True, ip1\<lparr>s_active := False\<rparr>, memcpy_pose (s_target_us ip1))
            else if s_mode ip1 = INTERP_MODE_FLOAT
            then (False, ip1,
                  map (\<lambda>i. flt (s_start_us ip1 ! i) (s_target_us ip1 ! i)
                               (s_elapsed_ms ip1) (s_duration_ms ip1))
                      [0..<SERVO_COUNT_TOTAL])
            else (let t_q16 = push_bit 16 (s_elapsed_ms ip1) div s_duration_ms ip1
                  in (False, ip1,
                      map (\<lambda>i. interp_q16 t_q16 (s_start_us ip1 ! i) (s_target_us ip1 ! i))
                          [0..<SERVO_COUNT_TOTAL]))))"

definition interpolator_abort :: "interpolator \<Rightarrow> interpolator" where
  "interpolator_abort ip = ip\<lparr>s_active := False\<rparr>"

text \<open>\<open>n\<close> successive calls of \<open>interpolator_tick\<close> on the same output array.\<close>

fun interpolator_ticks ::
  "(16 word \<Rightarrow> 16 word \<Rightarrow> 32 word \<Rightarrow> 32 word \<Rightarrow> 16 word) \<Rightarrow>
   nat \<Rightarrow> interpolator \<Rightarrow> 16 word list \<Rightarrow> bool \<times> interpolator \<times> 16 word list" where
  "interpolator_ticks flt 0 ip output_us = (False, ip, output_us)"
| "interpolator_ticks flt (Suc n) ip output_us =
     (case interpolator_ticks flt n ip output_us of
        (d, ip1, out1) \<Rightarrow> interpolator_tick flt ip1 out1)"

section \<open>PosePacket31 (common/protocol\_posepacket31.h)\<close>

record PosePacket31 =
  magic :: "16 word"
  ver_major :: "8 word"
  ver_minor :: "8 word"
  seq :: "32 word"
  t_ms :: "32 word"
  flags :: "16 word"
  servo_us :: "16 word list"
  crc16 :: "16 word"

definition FLAG_ESTOP :: "16 word" where
  "FLAG_ESTOP = push_bit 0 1"

definition FLAG_HOLD :: "16 word" where
  "FLAG_HOLD = push_bit 1 1"

definition FLAG_CLAMP_ENABLE :: "16 word" where
  "FLAG_CLAMP_ENABLE = push_bit 2 1"

definition FLAG_INTERP_Q16 :: "16 word" where
  "FLAG_INTERP_Q16 = push_bit 3 1"

text \<open>Modelled from the spec: versioning.h is not among the sources; the spec and
  tests/test\_posepacket.cpp give the protocol tag \<open>0xB31A\<close> and version 3.1.\<close>

definition SPIDER_MAGIC :: "16 word" where
  "SPIDER_MAGIC = 0xB31A"

definition SPIDER_VERSION_MAJOR :: "8 word" where
  "SPIDER_VERSION_MAJOR = 3"

definition SPIDER_VERSION_MINOR :: "8 word" where
  "SPIDER_VERSION_MINOR = 1"

text \<open>The packed little-endian layout of the struct (42 bytes for 13 channels).\<close>

definition le16 :: "16 word \<Rightarrow> 8 word list" where
  "le16 w = [ucast w, ucast (drop_bit 8 w)]"

definition le32 :: "32 word \<Rightarrow> 8 word list" where
  "le32 w = [ucast w, ucast (drop_bit 8 w), ucast (drop_bit 16 w), ucast (drop_bit 24 w)]"

definition posepacket31_bytes :: "PosePacket31 \<Rightarrow> 8 word list" where
  "posepacket31_bytes p =
     le16 (magic p) @ [ver_major p, ver_minor p] @ le32 (seq p) @ le32 (t_ms p) @
     le16 (flags p) @ concat (map le16 (take SERVO_COUNT_TOTAL (servo_us p))) @
     le16 (crc16 p)"

definition sizeof_PosePacket31 :: nat where
  "sizeof_PosePacket31 = 42"

definition posepacket31_init :: "32 word \<Rightarrow> PosePacket31" where
  "posepacket31_init sq =
     \<lparr>magic = SPIDER_MAGIC, ver_major = SPIDER_VERSION_MAJOR, ver_minor = SPIDER_VERSION_MINOR,
      seq = sq, t_ms = 0, flags = FLAG_CLAMP_ENABLE,
      servo_us = replicate SERVO_COUNT_TOTAL SERVO_PWM_NEUTRAL_US, crc16 = 0\<rparr>"

section \<open>CRC-16/CCITT-FALSE (common/crc16\_ccitt\_false.c)\<close>

definition CRC16_POLY :: "16 word" where
  "CRC16_POLY = 0x1021"

definition CRC16_INIT :: "16 word" where
  "CRC16_INIT = 0xFFFF"

definition crc16_shift :: "16 word \<Rightarrow> 16 word" where
  "crc16_shift crc =
     (if crc AND 0x8000 \<noteq> 0 then push_bit 1 crc XOR CRC16_POLY else push_bit 1 crc)"

definition crc16_byte :: "16 word \<Rightarrow> 8 word \<Rightarrow> 16 word" where
  "crc16_byte crc b = (crc16_shift ^^ 8) (crc XOR push_bit 8 (ucast b))"

definition crc16_ccitt_false :: "8 word list \<Rightarrow> nat \<Rightarrow> 16 word" where
  "crc16_ccitt_false data len = foldl crc16_byte CRC16_INIT (take len data)"

section \<open>Motion task (muscle\_rtos/motion\_task.c)\<close>

datatype MotionState =
    MOTION_STATE_IDLE
  | MOTION_STATE_MOVING
  | MOTION_STATE_HOLD
  | MOTION_STATE_ESTOP

text \<open>The static variables of motion\_task.c and of the modules it calls.\<close>

record motion = safety +
  mt_s_current_us :: "16 word list"
  mt_s_target_us :: "16 word list"
  s_last_packet_tick :: "32 word"
  mt_s_state :: MotionState
  interp :: interpolator

text \<open>The writes of the output loop: channel \<open>i\<close> gets \<open>s_current_us[i]\<close>.\<close>

definition motion_output :: "16 word list \<Rightarrow> pwm_write list \<Rightarrow> pwm_write list" where
  "motion_output cur log =
     foldl (\<lambda>l i. pwm_emit (pca9685_set_pwm_us (of_nat i) (cur ! i)) l) log
       [0..<SERVO_COUNT_TOTAL]"

text \<open>The state before the loop: both pose arrays neutral.\<close>

definition motion_task_init :: "32 word \<Rightarrow> 'a motion_scheme \<Rightarrow> 'a motion_scheme" where
  "motion_task_init now st =
     st\<lparr>mt_s_current_us := replicate SERVO_COUNT_TOTAL SERVO_PWM_NEUTRAL_US,
        mt_s_target_us := replicate SERVO_COUNT_TOTAL SERVO_PWM_NEUTRAL_US,
        s_last_packet_tick := now\<rparr>"

text \<open>The part of the loop body after the queue was polled: synchronise with the
  watchdog, run the state machine, write every channel.\<close>

definition motion_sync_watchdog :: "'a motion_scheme \<Rightarrow> 'a motion_scheme" where
  "motion_sync_watchdog st =
     (let wdog_state = watchdog_get_state st
      in if wdog_state = WATCHDOG_STATE_ESTOP \<and> mt_s_state st \<noteq> MOTION_STATE_ESTOP
         then st\<lparr>mt_s_state := MOTION_STATE_ESTOP\<rparr>
         else if (wdog_state = WATCHDOG_STATE_TIMEOUT \<or> wdog_state = WATCHDOG_STATE_HOLD)
                 \<and> mt_s_state st \<noteq> MOTION_STATE_ESTOP
         then st\<lparr>mt_s_state := MOTION_STATE_HOLD\<rparr>
         else st)"

definition motion_state_machine ::
  "(16 word \<Rightarrow> 16 word \<Rightarrow> 32 word \<Rightarrow> 32 word \<Rightarrow> 16 word) \<Rightarrow>
   'a motion_scheme \<Rightarrow> 'a motion_scheme" where
  "motion_state_machine flt st =
     (case mt_s_state st of
        MOTION_STATE_MOVING \<Rightarrow>
          (case interpolator_tick flt (interp st) (mt_s_current_us st) of
             (done, ip, out) \<Rightarrow>
               (let st1 = st\<lparr>interp := ip, mt_s_current_us := out\<rparr>
                in if done then st1\<lparr>mt_s_state := MOTION_STATE_IDLE\<rparr> else st1))
      | MOTION_STATE_HOLD \<Rightarrow> st
      | MOTION_STATE_IDLE \<Rightarrow> st
      | MOTION_STATE_ESTOP \<Rightarrow> st)"

definition motion_tick_tail ::
  "(16 word \<Rightarrow> 16 word \<Rightarrow> 32 word \<Rightarrow> 32 word \<Rightarrow> 16 word) \<Rightarrow>
   'a motion_scheme \<Rightarrow> 'a motion_scheme" where
  "motion_tick_tail flt st =
     (let st1 = motion_state_machine flt (motion_sync_watchdog st)
      in st1\<lparr>pwm_log := motion_output (mt_s_current_us st1) (pwm_log st1)\<rparr>)"

text \<open>One iteration of the \<open>while (1)\<close> loop of \<open>motion_task_entry\<close>. \<open>rx\<close> is what
  \<open>xQueueReceive\<close> delivered (\<open>None\<close> on timeout). The two \<open>continue\<close> statements
  skip the rest of the body, including the output loop.\<close>

definition motion_task_iter ::
  "(16 word \<Rightarrow> 16 word \<Rightarrow> 32 word \<Rightarrow> 32 word \<Rightarrow> 16 word) \<Rightarrow>
   PosePacket31 option \<Rightarrow> 32 word \<Rightarrow> 'a motion_scheme \<Rightarrow> 'a motion_scheme" where
  "motion_task_iter flt rx now st =
     (case rx of
        None \<Rightarrow> motion_tick_tail flt st
      | Some pkt \<Rightarrow>
          (let st1 = watchdog_feed now (st\<lparr>s_last_packet_tick := now\<rparr>)
           in if flags pkt AND FLAG_ESTOP \<noteq> 0
              then watchdog_signal_estop (st1\<lparr>mt_s_state := MOTION_STATE_ESTOP\<rparr>)
              else if flags pkt AND FLAG_HOLD \<noteq> 0
              then st1\<lparr>mt_s_state := MOTION_STATE_HOLD\<rparr>
              else
                (let tgt = map clamp_servo_us (take SERVO_COUNT_TOTAL (servo_us pkt));
                     ip = interpolator_start (mt_s_current_us st1) tgt (t_ms pkt)
                            (if flags pkt AND FLAG_INTERP_Q16 \<noteq> 0
                             then INTERP_MODE_Q16 else INTERP_MODE_FLOAT)
                 in motion_tick_tail flt
                      (st1\<lparr>mt_s_target_us := tgt, interp := ip,
                           mt_s_state := MOTION_STATE_MOVING\<rparr>))))"

text \<open>A run of the loop over a list of inputs (what the queue delivered, and the tick
  count, at each iteration).\<close>

fun motion_task_run ::
  "(16 word \<Rightarrow> 16 word \<Rightarrow> 32 word \<Rightarrow> 32 word \<Rightarrow> 16 word) \<Rightarrow>
   (PosePacket31 option \<times> 32 word) list \<Rightarrow> 'a motion_scheme \<Rightarrow> 'a motion_scheme" where
  "motion_task_run flt [] st = st"
| "motion_task_run flt ((rx, now) # rest) st =
     motion_task_run flt rest (motion_task_iter flt rx now st)"

section \<open>Shared ring (common/shared\_motion\_buffer.h)\<close>

definition PACKET_RING_SIZE :: "32 word" where
  "PACKET_RING_SIZE = 8"

definition SHARED_FLAG_MUSCLE_READY :: "32 word" where
  "SHARED_FLAG_MUSCLE_READY = push_bit 1 1"

definition SHARED_FLAG_ESTOP :: "32 word" where
  "SHARED_FLAG_ESTOP = push_bit 2 1"

definition SHARED_FLAG_OVERFLOW :: "32 word" where
  "SHARED_FLAG_OVERFLOW = push_bit 3 1"

text \<open>The header and the eight slots. A slot holds the packet that was copied into it;
  the padding bytes of a slot are not modelled.\<close>

record SharedMotionBuffer =
  write_idx :: "32 word"
  read_idx :: "32 word"
  sb_flags :: "32 word"
  reserved :: "32 word"
  packets :: "PosePacket31 list"

definition shared_buffer_available :: "SharedMotionBuffer \<Rightarrow> 32 word" where
  "shared_buffer_available buf = write_idx buf - read_idx buf"

definition shared_buffer_is_full :: "SharedMotionBuffer \<Rightarrow> bool" where
  "shared_buffer_is_full buf = (write_idx buf - read_idx buf \<ge> PACKET_RING_SIZE)"

definition shared_buffer_is_empty :: "SharedMotionBuffer \<Rightarrow> bool" where
  "shared_buffer_is_empty buf = (write_idx buf = read_idx buf)"

definition shared_buffer_slot_index :: "32 word \<Rightarrow> 32 word" where
  "shared_buffer_slot_index idx = idx mod PACKET_RING_SIZE"

section \<open>Producer side of the ring (brain\_linux/src/shared\_memory.cpp)\<close>

text \<open>The all-zero slot contents left by \<open>memset\<close> in \<open>SharedMemory::map\<close>.\<close>

definition zero_packet :: PosePacket31 where
  "zero_packet =
     \<lparr>magic = 0, ver_major = 0, ver_minor = 0, seq = 0, t_ms = 0, flags = 0,
      servo_us = replicate SERVO_COUNT_TOTAL 0, crc16 = 0\<rparr>"

text \<open>The buffer as \<open>SharedMemory::map\<close> leaves it.\<close>

definition SharedMemory_map :: SharedMotionBuffer where
  "SharedMemory_map =
     \<lparr>write_idx = 0, read_idx = 0, sb_flags = 0, reserved = 0,
      packets = replicate 8 zero_packet\<rparr>"

text \<open>\<open>SharedMemory::writePacket\<close>. \<open>m_buffer\<close> and \<open>pkt\<close> may be null pointers
  (\<open>None\<close>). The result is the return value, the buffer afterwards, and the value stored
  in \<open>out_write_idx\<close> (\<open>None\<close> when it is left untouched).\<close>

definition SharedMemory_writePacket ::
  "SharedMotionBuffer option \<Rightarrow> PosePacket31 option \<Rightarrow>
   bool \<times> SharedMotionBuffer option \<times> 32 word option" where
  "SharedMemory_writePacket m_buffer pkt =
     (case (m_buffer, pkt) of
        (Some buf, Some p) \<Rightarrow>
          (let w = write_idx buf; r = read_idx buf
           in if w - r \<ge> PACKET_RING_SIZE then (False, m_buffer, None)
              else
                (let slot = w mod PACKET_RING_SIZE;
                     buf1 = buf\<lparr>packets := (packets buf)[unat slot := p]\<rparr>;
                     buf2 = buf1\<lparr>write_idx := w + 1\<rparr>
                 in (True, Some buf2, Some (w + 1))))
      | _ \<Rightarrow> (False, m_buffer, None))"

definition SharedMemory_isFull :: "SharedMotionBuffer option \<Rightarrow> bool" where
  "SharedMemory_isFull m_buffer =
     (case m_buffer of None \<Rightarrow> True
      | Some buf \<Rightarrow> write_idx buf - read_idx buf \<ge> PACKET_RING_SIZE)"

text \<open>Pushing a list of packets one after the other with nothing drained in between;
  the list of return values comes with the final buffer.\<close>

fun writePackets ::
  "SharedMotionBuffer option \<Rightarrow> PosePacket31 list \<Rightarrow> bool list \<times> SharedMotionBuffer option" where
  "writePackets m_buffer [] = ([], m_buffer)"
| "writePackets m_buffer (p # ps) =
     (case SharedMemory_writePacket m_buffer (Some p) of
        (ok, m1, out) \<Rightarrow>
          (case writePackets m1 ps of (oks, m2) \<Rightarrow> (ok # oks, m2)))"

section \<open>Doorbell, producer side (brain\_linux/src/mailbox.h, mailbox.cpp)\<close>

definition mailbox_CMD_MOTION_PACKET :: "8 word" where
  "mailbox_CMD_MOTION_PACKET = 0x20"

definition mailbox_CMD_MOTION_ACK :: "8 word" where
  "mailbox_CMD_MOTION_ACK = 0x21"

definition mailbox_CMD_HEARTBEAT :: "8 word" where
  "mailbox_CMD_HEARTBEAT = 0x22"

definition mailbox_CMD_ESTOP :: "8 word" where
  "mailbox_CMD_ESTOP = 0x23"

text \<open>\<open>struct cmdqu_t\<close>; \<open>cmd_id\<close> is a 7-bit field.\<close>

record cmdqu_t =
  ip_id :: "8 word"
  cmd_id :: "8 word"
  block :: bool
  mstime :: "16 word"
  param_ptr :: "32 word"

text \<open>\<open>Mailbox::sendCommand\<close>: the command handed to the driver by \<open>ioctl\<close>, or
  \<open>None\<close> when the device is not open.\<close>

definition Mailbox_sendCommand :: "int \<Rightarrow> 8 word \<Rightarrow> 32 word \<Rightarrow> bool \<Rightarrow> cmdqu_t option" where
  "Mailbox_sendCommand m_fd cmd param blocking =
     (if m_fd < 0 then None
      else Some \<lparr>ip_id = 0, cmd_id = cmd AND 0x7F, block = blocking, mstime = 0,
                 param_ptr = param\<rparr>)"

definition Mailbox_notifyPacketReady :: "int \<Rightarrow> 32 word \<Rightarrow> cmdqu_t option" where
  "Mailbox_notifyPacketReady m_fd w = Mailbox_sendCommand m_fd mailbox_CMD_MOTION_PACKET w False"

definition Mailbox_sendEstop :: "int \<Rightarrow> cmdqu_t option" where
  "Mailbox_sendEstop m_fd = Mailbox_sendCommand m_fd mailbox_CMD_ESTOP 0 False"

definition Mailbox_sendHeartbeat :: "int \<Rightarrow> cmdqu_t option" where
  "Mailbox_sendHeartbeat m_fd = Mailbox_sendCommand m_fd mailbox_CMD_HEARTBEAT 0 False"

section \<open>Consumer (muscle\_rtos/app\_main\_v1.c)\<close>

definition CMD_HEARTBEAT :: "8 word" where
  "CMD_HEARTBEAT = 0x10"

definition CMD_MOTION_PACKET :: "8 word" where
  "CMD_MOTION_PACKET = 0x20"

definition CMD_ESTOP :: "8 word" where
  "CMD_ESTOP = 0x30"

text \<open>\<open>g_shared_buf\<close> is either \<open>NULL\<close> or the fixed address of the shared region.\<close>

datatype shared_buf_ptr = PTR_NULL | PTR_SHARED_MEM_BASE

record app_v1 = safety +
  shared_mem :: SharedMotionBuffer
  g_shared_buf :: shared_buf_ptr
  g_last_seq :: "32 word"
  g_rx_count :: "32 word"
  g_drop_count :: "32 word"
  g_estop_active :: bool

definition compute_crc16 :: "8 word list \<Rightarrow> nat \<Rightarrow> 16 word" where
  "compute_crc16 data len = crc16_ccitt_false data len"

text \<open>Returns the C return value and the state (fault flags, drop counter).\<close>

definition validate_packet :: "PosePacket31 \<Rightarrow> 'a app_v1_scheme \<Rightarrow> int \<times> 'a app_v1_scheme" where
  "validate_packet pkt st =
     (if magic pkt \<noteq> SPIDER_MAGIC
      then (- 1, (fault_flags_set FAULT_PACKET_MAGIC st)\<lparr>g_drop_count := g_drop_count st + 1\<rparr>)
      else if ver_major pkt \<noteq> SPIDER_VERSION_MAJOR \<or> ver_minor pkt \<noteq> SPIDER_VERSION_MINOR
      then (- 2, (fault_flags_set FAULT_PACKET_VERSION st)\<lparr>g_drop_count := g_drop_count st + 1\<rparr>)
      else if compute_crc16 (posepacket31_bytes pkt) (sizeof_PosePacket31 - 2) \<noteq> crc16 pkt
      then (- 3, (fault_flags_set FAULT_PACKET_CRC st)\<lparr>g_drop_count := g_drop_count st + 1\<rparr>)
      else if seq pkt \<le> g_last_seq st \<and> g_last_seq st \<noteq> 0
      then (- 4, st\<lparr>g_drop_count := g_drop_count st + 1\<rparr>)
      else (0, st))"

definition apply_servo_values :: "PosePacket31 \<Rightarrow> 'a app_v1_scheme \<Rightarrow> 'a app_v1_scheme" where
  "apply_servo_values pkt st =
     st\<lparr>pwm_log :=
          foldl (\<lambda>l ch. pwm_emit (pca9685_set_pwm_us (of_nat ch) (servo_us pkt ! ch)) l)
            (pwm_log st) [0..<SERVO_COUNT_TOTAL]\<rparr>"

definition set_all_servos_neutral :: "'a app_v1_scheme \<Rightarrow> 'a app_v1_scheme" where
  "set_all_servos_neutral st =
     st\<lparr>pwm_log := pca9685_set_all_us SERVO_PWM_NEUTRAL_US (pwm_log st)\<rparr>"

definition handle_estop :: "'a app_v1_scheme \<Rightarrow> 'a app_v1_scheme" where
  "handle_estop st =
     (let st1 = set_all_servos_neutral
                  (fault_flags_set FAULT_ESTOP_ACTIVE (st\<lparr>g_estop_active := True\<rparr>))
      in if g_shared_buf st1 \<noteq> PTR_NULL
         then st1\<lparr>shared_mem :=
                    (shared_mem st1)\<lparr>sb_flags := sb_flags (shared_mem st1) OR SHARED_FLAG_ESTOP\<rparr>\<rparr>
         else st1)"

definition handle_heartbeat :: "32 word \<Rightarrow> 'a app_v1_scheme \<Rightarrow> 'a app_v1_scheme" where
  "handle_heartbeat now st = watchdog_feed now st"

text \<open>What the loop of \<open>process_shared_buffer_packets\<close> does with the packet of one slot
  (the \<open>if (validate_packet(pkt) == 0)\<close> statement); the flag tells whether the packet
  was applied (\<open>processed++\<close>).\<close>

definition process_packet ::
  "32 word \<Rightarrow> PosePacket31 \<Rightarrow> 'a app_v1_scheme \<Rightarrow> bool \<times> 'a app_v1_scheme" where
  "process_packet now pkt st =
     (case validate_packet pkt st of
        (rc, st1) \<Rightarrow>
          if rc = 0 then
            (let st2 = watchdog_feed now st1
             in if flags pkt AND FLAG_ESTOP \<noteq> 0 then (False, handle_estop st2)
                else (True, (apply_servo_values pkt st2)
                              \<lparr>g_last_seq := seq pkt, g_rx_count := g_rx_count st2 + 1\<rparr>))
          else (False, st1))"

definition store_read_idx :: "32 word \<Rightarrow> 'a app_v1_scheme \<Rightarrow> 'a app_v1_scheme" where
  "store_read_idx r st = st\<lparr>shared_mem := (shared_mem st)\<lparr>read_idx := r\<rparr>\<rparr>"

function process_loop ::
  "32 word \<Rightarrow> 32 word \<Rightarrow> 32 word \<Rightarrow> int \<Rightarrow> 'a app_v1_scheme \<Rightarrow> int \<times> 'a app_v1_scheme" where
  "process_loop now r w processed st =
     (if r \<noteq> w then
        (if g_estop_active st
         then process_loop now (r + 1) w processed (store_read_idx (r + 1) st)
         else
           (case process_packet now
                   (packets (shared_mem st) ! unat (shared_buffer_slot_index r)) st of
              (applied, st1) \<Rightarrow>
                process_loop now (r + 1) w (if applied then processed + 1 else processed)
                  (store_read_idx (r + 1) st1)))
      else (processed, st))"
  by pat_completeness auto
termination
proof (relation "measure (\<lambda>(now, r, w, processed, st). unat (w - r))")
  show "wf (measure (\<lambda>(now, r, w, processed, st). unat (w - r)))" by simp
next
  fix now r w :: "32 word" and processed :: int and st :: "'a app_v1_scheme"
  assume "r \<noteq> w"
  then have nz: "w - r \<noteq> 0" by simp
  have e: "w - (r + 1) = (w - r) - 1" by simp
  have "unat ((w - r) - 1) = unat (w - r) - 1" using nz by (rule unat_minus_one)
  moreover have "0 < unat (w - r)" using nz by (simp add: unat_gt_0)
  ultimately have "unat (w - (r + 1)) < unat (w - r)" unfolding e by linarith
  then show "((now, r + 1, w, processed, store_read_idx (r + 1) st),
              (now, r, w, processed, st)) \<in> measure (\<lambda>(now, r, w, processed, st). unat (w - r))"
    by simp
next
  fix now r w :: "32 word" and processed :: int and st :: "'a app_v1_scheme"
    and x :: "bool \<times> 'a app_v1_scheme" and applied :: bool and st1 :: "'a app_v1_scheme"
  assume "r \<noteq> w"
  then have nz: "w - r \<noteq> 0" by simp
  have e: "w - (r + 1) = (w - r) - 1" by simp
  have "unat ((w - r) - 1) = unat (w - r) - 1" using nz by (rule unat_minus_one)
  moreover have "0 < unat (w - r)" using nz by (simp add: unat_gt_0)
  ultimately have "unat (w - (r + 1)) < unat (w - r)" unfolding e by linarith
  then show "((now, r + 1, w, if applied then processed + 1 else processed,
               store_read_idx (r + 1) st1),
              (now, r, w, processed, st)) \<in> measure (\<lambda>(now, r, w, processed, st). unat (w - r))"
    by simp
qed

definition process_shared_buffer_packets ::
  "32 word \<Rightarrow> 'a app_v1_scheme \<Rightarrow> int \<times> 'a app_v1_scheme" where
  "process_shared_buffer_packets now st =
     (if g_shared_buf st = PTR_NULL then (0, st)
      else process_loop now (read_idx (shared_mem st)) (write_idx (shared_mem st)) 0 st)"

text \<open>The \<open>switch\<close> of \<open>mailbox_cmd_handler\<close>.\<close>

datatype dispatch = DISPATCH_HEARTBEAT | DISPATCH_MOTION_PACKET | DISPATCH_ESTOP | DISPATCH_UNKNOWN

definition mailbox_cmd_case :: "8 word \<Rightarrow> dispatch" where
  "mailbox_cmd_case c =
     (if c = CMD_HEARTBEAT then DISPATCH_HEARTBEAT
      else if c = CMD_MOTION_PACKET then DISPATCH_MOTION_PACKET
      else if c = CMD_ESTOP then DISPATCH_ESTOP
      else DISPATCH_UNKNOWN)"

definition mailbox_cmd_handler ::
  "8 word \<Rightarrow> 32 word \<Rightarrow> 32 word \<Rightarrow> 'a app_v1_scheme \<Rightarrow> 'a app_v1_scheme" where
  "mailbox_cmd_handler c param now st =
     (case mailbox_cmd_case c of
        DISPATCH_HEARTBEAT \<Rightarrow> handle_heartbeat now st
      | DISPATCH_MOTION_PACKET \<Rightarrow>
          (if \<not> g_estop_active st then snd (process_shared_buffer_packets now st) else st)
      | DISPATCH_ESTOP \<Rightarrow> handle_estop st
      | DISPATCH_UNKNOWN \<Rightarrow> st)"

text \<open>The consumer's handling of a sequence of slot contents, as the loop of
  \<open>process_shared_buffer_packets\<close> treats each of them over any number of drains: skipped
  while ESTOP is active, else validated and processed. The packets that were applied are
  returned in order, with the final state.\<close>

fun consume ::
  "(32 word \<times> PosePacket31) list \<Rightarrow> 'a app_v1_scheme \<Rightarrow> PosePacket31 list \<times> 'a app_v1_scheme" where
  "consume [] st = ([], st)"
| "consume ((now, pkt) # rest) st =
     (if g_estop_active st then consume rest st
      else
        (case process_packet now pkt st of
           (applied, st1) \<Rightarrow>
             (case consume rest st1 of
                (acc, st2) \<Rightarrow> ((if applied then pkt # acc else acc), st2))))"

section \<open>Start-up states\<close>

text \<open>The static variables when the loop of \<open>motion_task_entry\<close> is entered at tick 0 in
  the application of archive/app\_main.c: \<open>watchdog_init(on_watchdog_timeout,
  on_watchdog_estop)\<close>, zero-initialised statics, both pose arrays neutral.\<close>

definition motion_boot :: motion where
  "motion_boot =
     \<lparr>wd_s_state = WATCHDOG_STATE_NORMAL, s_last_feed_tick = 0,
      s_timeout_cb = CB_archive_on_watchdog_timeout, s_estop_cb = CB_on_watchdog_estop,
      s_fault_flags = 0, s_estop_active = False, pwm_log = [],
      mt_s_current_us = replicate SERVO_COUNT_TOTAL SERVO_PWM_NEUTRAL_US,
      mt_s_target_us = replicate SERVO_COUNT_TOTAL SERVO_PWM_NEUTRAL_US,
      s_last_packet_tick = 0, mt_s_state = MOTION_STATE_IDLE,
      interp = \<lparr>s_start_us = replicate SERVO_COUNT_TOTAL 0,
                s_target_us = replicate SERVO_COUNT_TOTAL 0,
                s_duration_ms = 0, s_elapsed_ms = 0, s_mode = INTERP_MODE_FLOAT,
                s_active = False\<rparr>\<rparr>"

text \<open>The state at the end of \<open>main_cvirtos\<close> of app\_main\_v1.c over a freshly mapped
  ring, at tick 0 (the writes of the neutral pose at start-up are left out of the log).\<close>

definition app_v1_boot :: app_v1 where
  "app_v1_boot =
     \<lparr>wd_s_state = WATCHDOG_STATE_NORMAL, s_last_feed_tick = 0,
      s_timeout_cb = CB_v1_on_watchdog_timeout, s_estop_cb = CB_on_watchdog_estop,
      s_fault_flags = 0, s_estop_active = False, pwm_log = [],
      shared_mem = SharedMemory_map\<lparr>sb_flags := SHARED_FLAG_MUSCLE_READY\<rparr>,
      g_shared_buf = PTR_SHARED_MEM_BASE,
      g_last_seq = 0, g_rx_count = 0, g_drop_count = 0, g_estop_active = False\<rparr>"

section \<open>Notions used in the statements\<close>

text \<open>A write whose OFF count is the conversion of a pulse width between 500 and
  2500 microseconds.\<close>

definition pulse_in_range :: "pwm_write \<Rightarrow> bool" where
  "pulse_in_range w =
     (\<exists>us. 500 \<le> us \<and> us \<le> 2500 \<and> pw_on w = 0 \<and> pw_off w = pca9685_us_to_ticks us)"

text \<open>Sequence numbers grow strictly along a list of packets, starting after \<open>prev\<close>,
  except that nothing is required of the successor of sequence number 0.\<close>

fun seq_increasing :: "32 word \<Rightarrow> PosePacket31 list \<Rightarrow> bool" where
  "seq_increasing prev [] = True"
| "seq_increasing prev (p # ps) = ((prev = 0 \<or> prev < seq p) \<and> seq_increasing (seq p) ps)"

section \<open>The PWM sink saturates\<close>

lemma pca9685_saturate_us_range:
  "500 \<le> pca9685_saturate_us p \<and> pca9685_saturate_us p \<le> 2500"
  unfolding pca9685_saturate_us_def SERVO_PWM_MIN_US_def SERVO_PWM_MAX_US_def Let_def
  by (simp add: word_le_nat_alt word_less_nat_alt not_less)

subsection \<open>Evaluation of the loops over the channels\<close>

lemma upt13: "[0..<SERVO_COUNT_TOTAL] = [0,1,2,3,4,5,6,7,8,9,10,11,12]"
  unfolding SERVO_COUNT_TOTAL_def by (simp add: upt_conv_Cons)

lemma upt16: "[0..<16] = [0,1,2,3,4,5,6,7,8,9,10,11,12,13,14,15::nat]"
  by (simp add: upt_conv_Cons)

lemma rep13: "replicate SERVO_COUNT_TOTAL x = [x,x,x,x,x,x,x,x,x,x,x,x,x]"
  unfolding SERVO_COUNT_TOTAL_def by (simp add: numeral_eq_Suc)

lemma set_pwm_us_lt16:
  "ch < 16 \<Longrightarrow> pca9685_set_pwm_us ch p =
     Some \<lparr>pw_channel = ch, pw_on = 0, pw_off = pca9685_us_to_ticks (pca9685_saturate_us p)\<rparr>"
  by (simp add: pca9685_set_pwm_us_def pca9685_set_pwm_raw_def PCA9685_CHANNEL_COUNT_def not_le)

lemma motion_output_eq:
  "motion_output cur log = log @
     map (\<lambda>i. \<lparr>pw_channel = of_nat i, pw_on = 0,
                pw_off = pca9685_us_to_ticks (pca9685_saturate_us (cur ! i))\<rparr>)
       [0..<SERVO_COUNT_TOTAL]"
  unfolding motion_output_def upt13
  by (simp add: set_pwm_us_lt16 pwm_emit_def)

lemma set_all_us_eq:
  "pca9685_set_all_us p log = log @
     map (\<lambda>i. \<lparr>pw_channel = of_nat i, pw_on = 0,
                pw_off = pca9685_us_to_ticks (pca9685_saturate_us p)\<rparr>) [0..<16]"
  unfolding pca9685_set_all_us_def upt16
  by (simp add: set_pwm_us_lt16 pwm_emit_def)

lemma ticks_vals:
  "pca9685_us_to_ticks (pca9685_saturate_us 1500) = 307"
  "pca9685_us_to_ticks (pca9685_saturate_us 2000) = 409"
  "pca9685_us_to_ticks (pca9685_saturate_us 3000) = 512"
  "pca9685_us_to_ticks (pca9685_saturate_us 2500) = 512"
  "pca9685_us_to_ticks (pca9685_saturate_us 100) = 102"
  by (simp_all add: pca9685_us_to_ticks_def pca9685_saturate_us_def SERVO_PWM_MIN_US_def
      SERVO_PWM_MAX_US_def)

subsection \<open>Every write of a loop iteration is in range\<close>

lemma foldl_pwm_emit:
  "foldl (\<lambda>l i. pwm_emit (g i) l) log xs =
   log @ concat (map (\<lambda>i. case g i of None \<Rightarrow> [] | Some x \<Rightarrow> [x]) xs)"
  by (induction xs arbitrary: log) (auto simp: pwm_emit_def split: option.splits)

lemma set_pwm_us_in_range:
  "pca9685_set_pwm_us ch p = Some w \<Longrightarrow> pulse_in_range w"
  unfolding pca9685_set_pwm_us_def pca9685_set_pwm_raw_def pulse_in_range_def
  using pca9685_saturate_us_range [of p]
  by (auto split: if_splits)

lemma foldl_set_pwm_us_in_range:
  "\<exists>ws. foldl (\<lambda>l i. pwm_emit (pca9685_set_pwm_us (c i) (p i)) l) log xs = log @ ws
        \<and> list_all pulse_in_range ws"
  unfolding foldl_pwm_emit
  by (induction xs) (auto simp: set_pwm_us_in_range split: option.splits)

lemma motion_output_in_range:
  "\<exists>ws. motion_output cur log = log @ ws \<and> list_all pulse_in_range ws"
  unfolding motion_output_def by (rule foldl_set_pwm_us_in_range)

lemma set_all_us_in_range:
  "\<exists>ws. pca9685_set_all_us p log = log @ ws \<and> list_all pulse_in_range ws"
  unfolding pca9685_set_all_us_def by (rule foldl_set_pwm_us_in_range)

lemma pwm_log_watchdog_feed [simp]: "pwm_log (watchdog_feed now st) = pwm_log st"
  by (simp add: watchdog_feed_def fault_flags_clear_def Let_def)

lemma pwm_log_sync [simp]: "pwm_log (motion_sync_watchdog st) = pwm_log st"
  by (simp add: motion_sync_watchdog_def Let_def)

lemma pwm_log_state_machine [simp]: "pwm_log (motion_state_machine flt st) = pwm_log st"
  by (simp add: motion_state_machine_def Let_def split: MotionState.splits prod.splits)

lemma tick_tail_in_range:
  "\<exists>ws. pwm_log (motion_tick_tail flt st) = pwm_log st @ ws \<and> list_all pulse_in_range ws"
  using motion_output_in_range [of "mt_s_current_us (motion_state_machine flt (motion_sync_watchdog st))" "pwm_log st"]
  by (simp add: motion_tick_tail_def Let_def)

lemma invoke_callback_in_range:
  "\<exists>ws. pwm_log (invoke_callback cb st) = pwm_log st @ ws \<and> list_all pulse_in_range ws"
  using set_all_us_in_range [of SERVO_PWM_NEUTRAL_US "pwm_log st"]
  by (cases cb) (auto simp: failsafe_enter_estop_def failsafe_set_safe_pose_def fault_flags_set_def)

lemma signal_estop_in_range:
  "\<exists>ws. pwm_log (watchdog_signal_estop st) = pwm_log st @ ws \<and> list_all pulse_in_range ws"
  using invoke_callback_in_range [of "s_estop_cb st"
      "fault_flags_set FAULT_ESTOP_ACTIVE (st\<lparr>wd_s_state := WATCHDOG_STATE_ESTOP\<rparr>)"]
  by (auto simp: watchdog_signal_estop_def fault_flags_set_def Let_def)

lemma motion_task_iter_in_range:
  "\<exists>ws. pwm_log (motion_task_iter flt rx now st) = pwm_log st @ ws \<and> list_all pulse_in_range ws"
proof (cases rx)
  case None
  then show ?thesis using tick_tail_in_range [of flt st] by (simp add: motion_task_iter_def)
next
  case (Some pkt)
  let ?st1 = "watchdog_feed now (st\<lparr>s_last_packet_tick := now\<rparr>)"
  have l1: "pwm_log ?st1 = pwm_log st" by simp
  show ?thesis
  proof (cases "flags pkt AND FLAG_ESTOP \<noteq> 0")
    case True
    then show ?thesis
      using Some signal_estop_in_range [of "?st1\<lparr>mt_s_state := MOTION_STATE_ESTOP\<rparr>"] l1
      by (simp add: motion_task_iter_def Let_def)
  next
    case False
    show ?thesis
    proof (cases "flags pkt AND FLAG_HOLD \<noteq> 0")
      case True
      then show ?thesis using Some False l1 by (simp add: motion_task_iter_def Let_def)
    next
      case h: False
      let ?tgt = "map clamp_servo_us (take SERVO_COUNT_TOTAL (servo_us pkt))"
      let ?st2 = "?st1\<lparr>mt_s_target_us := ?tgt,
                   interp := interpolator_start (mt_s_current_us ?st1) ?tgt (t_ms pkt)
                            (if flags pkt AND FLAG_INTERP_Q16 \<noteq> 0
                             then INTERP_MODE_Q16 else INTERP_MODE_FLOAT),
                   mt_s_state := MOTION_STATE_MOVING\<rparr>"
      have "pwm_log ?st2 = pwm_log st" by simp
      then show ?thesis
        using Some False h tick_tail_in_range [of flt ?st2]
        by (simp add: motion_task_iter_def Let_def)
    qed
  qed
qed

subsection \<open>What the watchdog calls change\<close>

lemma invoke_callback_motion [simp]:
  "mt_s_state (invoke_callback cb st) = mt_s_state st"
  "mt_s_current_us (invoke_callback cb st) = mt_s_current_us st"
  "interp (invoke_callback cb st) = interp st"
  by (cases cb; simp add: failsafe_enter_estop_def failsafe_set_safe_pose_def fault_flags_set_def)+

lemma invoke_callback_safety [simp]:
  "wd_s_state (invoke_callback cb st) = wd_s_state st"
  "s_last_feed_tick (invoke_callback cb st) = s_last_feed_tick st"
  "s_estop_cb (invoke_callback cb st) = s_estop_cb st"
  "s_timeout_cb (invoke_callback cb st) = s_timeout_cb st"
  by (cases cb; simp add: failsafe_enter_estop_def failsafe_set_safe_pose_def fault_flags_set_def)+

lemma signal_estop_fields [simp]:
  "wd_s_state (watchdog_signal_estop st) = WATCHDOG_STATE_ESTOP"
  "s_last_feed_tick (watchdog_signal_estop st) = s_last_feed_tick st"
  by (simp_all add: watchdog_signal_estop_def Let_def fault_flags_set_def)

lemma signal_estop_motion [simp]:
  "mt_s_state (watchdog_signal_estop st) = mt_s_state st"
  "mt_s_current_us (watchdog_signal_estop st) = mt_s_current_us st"
  by (simp_all add: watchdog_signal_estop_def Let_def fault_flags_set_def)

lemma signal_estop_log:
  "s_estop_cb st = CB_on_watchdog_estop \<Longrightarrow>
   pwm_log (watchdog_signal_estop st) = pca9685_set_all_us SERVO_PWM_NEUTRAL_US (pwm_log st)"
  by (simp add: watchdog_signal_estop_def Let_def fault_flags_set_def failsafe_enter_estop_def
      failsafe_set_safe_pose_def)

lemma feed_fields [simp]:
  "s_last_feed_tick (watchdog_feed now st) = now"
  "s_estop_cb (watchdog_feed now st) = s_estop_cb st"
  "s_timeout_cb (watchdog_feed now st) = s_timeout_cb st"
  by (simp_all add: watchdog_feed_def Let_def fault_flags_clear_def)

lemma feed_motion [simp]:
  "mt_s_state (watchdog_feed now st) = mt_s_state st"
  "mt_s_current_us (watchdog_feed now st) = mt_s_current_us st"
  "interp (watchdog_feed now st) = interp st"
  by (simp_all add: watchdog_feed_def Let_def fault_flags_clear_def)

lemma feed_state:
  "wd_s_state (watchdog_feed now st) =
     (if wd_s_state st = WATCHDOG_STATE_ESTOP then WATCHDOG_STATE_ESTOP else WATCHDOG_STATE_NORMAL)"
  by (cases "wd_s_state st") (simp_all add: watchdog_feed_def Let_def fault_flags_clear_def)

lemma iter_estop:
  "flags pkt AND FLAG_ESTOP \<noteq> 0 \<Longrightarrow>
   motion_task_iter flt (Some pkt) now st =
     watchdog_signal_estop
       ((watchdog_feed now (st\<lparr>s_last_packet_tick := now\<rparr>))\<lparr>mt_s_state := MOTION_STATE_ESTOP\<rparr>)"
  by (simp add: motion_task_iter_def Let_def)

lemma tick_tail_estop:
  "mt_s_state st = MOTION_STATE_ESTOP \<Longrightarrow>
   motion_tick_tail flt st = st\<lparr>pwm_log := motion_output (mt_s_current_us st) (pwm_log st)\<rparr>"
  by (simp add: motion_tick_tail_def motion_sync_watchdog_def motion_state_machine_def Let_def)

lemma tick_after_estop:
  assumes "flags pkt AND FLAG_ESTOP \<noteq> 0" and "s_estop_cb st = CB_on_watchdog_estop"
  shows "pwm_log (motion_task_iter flt None now2 (motion_task_iter flt (Some pkt) now st)) =
         motion_output (mt_s_current_us st)
           (pca9685_set_all_us SERVO_PWM_NEUTRAL_US (pwm_log st))"
proof -
  let ?st1 = "(watchdog_feed now (st\<lparr>s_last_packet_tick := now\<rparr>))\<lparr>mt_s_state := MOTION_STATE_ESTOP\<rparr>"
  have e: "motion_task_iter flt (Some pkt) now st = watchdog_signal_estop ?st1"
    using assms(1) by (rule iter_estop)
  have cb: "s_estop_cb ?st1 = CB_on_watchdog_estop" using assms(2) by simp
  have l: "pwm_log (watchdog_signal_estop ?st1) = pca9685_set_all_us SERVO_PWM_NEUTRAL_US (pwm_log st)"
    using signal_estop_log [OF cb] by simp
  have m: "mt_s_state (watchdog_signal_estop ?st1) = MOTION_STATE_ESTOP" by simp
  have c: "mt_s_current_us (watchdog_signal_estop ?st1) = mt_s_current_us st" by simp
  show ?thesis
    unfolding e by (simp add: motion_task_iter_def tick_tail_estop [OF m] l c)
qed

lemma flag_vals:
  "FLAG_ESTOP = 1" "FLAG_HOLD = 2" "FLAG_CLAMP_ENABLE = 4" "FLAG_INTERP_Q16 = 8"
  by (simp_all add: FLAG_ESTOP_def FLAG_HOLD_def FLAG_CLAMP_ENABLE_def FLAG_INTERP_Q16_def)

lemma iter_move:
  "flags pkt AND FLAG_ESTOP = 0 \<Longrightarrow> flags pkt AND FLAG_HOLD = 0 \<Longrightarrow>
   motion_task_iter flt (Some pkt) now st =
     motion_tick_tail flt
       ((watchdog_feed now (st\<lparr>s_last_packet_tick := now\<rparr>))
          \<lparr>mt_s_target_us := map clamp_servo_us (take SERVO_COUNT_TOTAL (servo_us pkt)),
           interp := interpolator_start (mt_s_current_us st)
                       (map clamp_servo_us (take SERVO_COUNT_TOTAL (servo_us pkt))) (t_ms pkt)
                       (if flags pkt AND FLAG_INTERP_Q16 \<noteq> 0
                        then INTERP_MODE_Q16 else INTERP_MODE_FLOAT),
           mt_s_state := MOTION_STATE_MOVING\<rparr>)"
  by (simp add: motion_task_iter_def Let_def)

lemma tick_snap:
  "s_active ip \<Longrightarrow> s_elapsed_ms ip + TICK_PERIOD_MS \<ge> s_duration_ms ip \<Longrightarrow>
   interpolator_tick flt ip out =
     (True, ip\<lparr>s_elapsed_ms := s_elapsed_ms ip + TICK_PERIOD_MS, s_active := False\<rparr>,
      memcpy_pose (s_target_us ip))"
  by (simp add: interpolator_tick_def Let_def)

lemma tick_tail_log:
  "pwm_log (motion_tick_tail flt st) =
     motion_output (mt_s_current_us (motion_tick_tail flt st)) (pwm_log st)"
  by (simp add: motion_tick_tail_def Let_def)

lemma move_snap:
  assumes "flags pkt AND FLAG_ESTOP = 0" and "flags pkt AND FLAG_HOLD = 0"
    and "wd_s_state st \<noteq> WATCHDOG_STATE_ESTOP" and "t_ms pkt \<le> 20"
  shows "mt_s_current_us (motion_task_iter flt (Some pkt) now st) =
           memcpy_pose (memcpy_pose (map clamp_servo_us (take SERVO_COUNT_TOTAL (servo_us pkt))))"
    and "mt_s_state (motion_task_iter flt (Some pkt) now st) = MOTION_STATE_IDLE"
    and "s_estop_cb (motion_task_iter flt (Some pkt) now st) = s_estop_cb st"
    and "pwm_log (motion_task_iter flt (Some pkt) now st) =
           motion_output (memcpy_pose (memcpy_pose
              (map clamp_servo_us (take SERVO_COUNT_TOTAL (servo_us pkt))))) (pwm_log st)"
proof -
  let ?tgt = "map clamp_servo_us (take SERVO_COUNT_TOTAL (servo_us pkt))"
  let ?ip = "interpolator_start (mt_s_current_us st) ?tgt (t_ms pkt)
               (if flags pkt AND FLAG_INTERP_Q16 \<noteq> 0 then INTERP_MODE_Q16 else INTERP_MODE_FLOAT)"
  let ?st2 = "(watchdog_feed now (st\<lparr>s_last_packet_tick := now\<rparr>))
          \<lparr>mt_s_target_us := ?tgt, interp := ?ip, mt_s_state := MOTION_STATE_MOVING\<rparr>"
  have e: "motion_task_iter flt (Some pkt) now st = motion_tick_tail flt ?st2"
    using assms(1,2) by (rule iter_move)
  have w: "wd_s_state ?st2 = WATCHDOG_STATE_NORMAL"
    using assms(3) by (simp add: feed_state)
  have d: "s_duration_ms ?ip \<le> s_elapsed_ms ?ip + TICK_PERIOD_MS"
    using assms(4) by (simp add: interpolator_start_def TICK_PERIOD_MS_def)
  have a: "s_active ?ip" by (simp add: interpolator_start_def)
  have t: "interpolator_tick flt ?ip (mt_s_current_us ?st2) =
     (True, ?ip\<lparr>s_elapsed_ms := s_elapsed_ms ?ip + TICK_PERIOD_MS, s_active := False\<rparr>,
      memcpy_pose (s_target_us ?ip))"
    using a d by (rule tick_snap)
  have tg: "s_target_us ?ip = memcpy_pose ?tgt" by (simp add: interpolator_start_def)
  have sm: "motion_state_machine flt (motion_sync_watchdog ?st2) =
     ?st2\<lparr>interp := ?ip\<lparr>s_elapsed_ms := s_elapsed_ms ?ip + TICK_PERIOD_MS, s_active := False\<rparr>,
           mt_s_current_us := memcpy_pose (memcpy_pose ?tgt),
           mt_s_state := MOTION_STATE_IDLE\<rparr>"
    using t w
    by (simp add: motion_sync_watchdog_def watchdog_get_state_def motion_state_machine_def
        Let_def tg)
  show c: "mt_s_current_us (motion_task_iter flt (Some pkt) now st) = memcpy_pose (memcpy_pose ?tgt)"
    unfolding e by (simp add: motion_tick_tail_def Let_def sm)
  show "mt_s_state (motion_task_iter flt (Some pkt) now st) = MOTION_STATE_IDLE"
    unfolding e by (simp add: motion_tick_tail_def Let_def sm)
  show "s_estop_cb (motion_task_iter flt (Some pkt) now st) = s_estop_cb st"
    unfolding e by (simp add: motion_tick_tail_def Let_def sm)
  have "pwm_log (motion_task_iter flt (Some pkt) now st) =
      motion_output (mt_s_current_us (motion_task_iter flt (Some pkt) now st)) (pwm_log ?st2)"
    unfolding e by (rule tick_tail_log)
  then show "pwm_log (motion_task_iter flt (Some pkt) now st) =
           motion_output (memcpy_pose (memcpy_pose ?tgt)) (pwm_log st)"
    unfolding c by simp
qed

subsection \<open>Claim C1\<close>

text \<open>
  C1. For every channel and every iteration of the motion loop, whatever the packet holds
  (also channel values outside the range) and whatever the pose arrays hold, the pulse
  width that \<open>pca9685_set_pwm_us\<close> converts to ticks and hands to the PWM chip lies
  between 500 and 2500 microseconds: the function saturates unconditionally before the
  conversion, and every write that an iteration of \<open>motion_task_entry\<close> appends to the
  log (the output loop, and the neutral pose set by the ESTOP callback) goes through it.
\<close>

theorem pwm_pulse_always_in_range:
  "(pca9685_set_pwm_us channel pulse_us =
      (if channel \<ge> PCA9685_CHANNEL_COUNT then None
       else Some \<lparr>pw_channel = channel, pw_on = 0,
                  pw_off = pca9685_us_to_ticks (pca9685_saturate_us pulse_us)\<rparr>)
    \<and> 500 \<le> pca9685_saturate_us pulse_us \<and> pca9685_saturate_us pulse_us \<le> 2500) \<and>
   (\<forall>w \<in> set (drop (length (pwm_log st)) (pwm_log (motion_task_iter flt rx now st))).
      \<exists>us. 500 \<le> us \<and> us \<le> 2500 \<and> pw_on w = 0 \<and> pw_off w = pca9685_us_to_ticks us)"
proof
  show "pca9685_set_pwm_us channel pulse_us =
      (if channel \<ge> PCA9685_CHANNEL_COUNT then None
       else Some \<lparr>pw_channel = channel, pw_on = 0,
                  pw_off = pca9685_us_to_ticks (pca9685_saturate_us pulse_us)\<rparr>)
    \<and> 500 \<le> pca9685_saturate_us pulse_us \<and> pca9685_saturate_us pulse_us \<le> 2500"
    using pca9685_saturate_us_range [of pulse_us]
    by (simp add: pca9685_set_pwm_us_def pca9685_set_pwm_raw_def)
  show "\<forall>w \<in> set (drop (length (pwm_log st)) (pwm_log (motion_task_iter flt rx now st))).
      \<exists>us. 500 \<le> us \<and> us \<le> 2500 \<and> pw_on w = 0 \<and> pw_off w = pca9685_us_to_ticks us"
    using motion_task_iter_in_range [of flt rx now st]
    by (auto simp: list_all_iff pulse_in_range_def)
qed

lemma s1_log:
  "pwm_log (motion_task_iter flt
      (Some ((posepacket31_init 1)\<lparr>servo_us := [3000, 1500, 1500, 1500, 1500, 1500, 1500, 1500, 1500, 1500, 1500, 1500, 1500]\<rparr>)) 0 motion_boot) =
   map (\<lambda>i. \<lparr>pw_channel = of_nat i, pw_on = 0, pw_off = (if i = 0 then 512 else 307)\<rparr>)
     [0..<SERVO_COUNT_TOTAL]"
proof -
  let ?pkt = "(posepacket31_init 1)\<lparr>servo_us := [3000, 1500, 1500, 1500, 1500, 1500, 1500, 1500, 1500, 1500, 1500, 1500, 1500]\<rparr>"
  have 1: "flags ?pkt AND FLAG_ESTOP = 0" "flags ?pkt AND FLAG_HOLD = 0"
    by (simp_all add: posepacket31_init_def flag_vals)
  have 2: "wd_s_state motion_boot \<noteq> WATCHDOG_STATE_ESTOP" by (simp add: motion_boot_def)
  have 3: "t_ms ?pkt \<le> 20" by (simp add: posepacket31_init_def)
  have 4: "memcpy_pose (memcpy_pose (map clamp_servo_us (take SERVO_COUNT_TOTAL (servo_us ?pkt))))
       = [2500, 1500, 1500, 1500, 1500, 1500, 1500, 1500, 1500, 1500, 1500, 1500, 1500]"
    by (simp add: memcpy_pose_def SERVO_COUNT_TOTAL_def clamp_servo_us_def SERVO_PWM_MIN_US_def
        SERVO_PWM_MAX_US_def)
  have 5: "pwm_log motion_boot = []" by (simp add: motion_boot_def)
  show ?thesis
    unfolding move_snap(4) [OF 1 2 3] 4 5 motion_output_eq upt13
    by (simp add: ticks_vals)
qed

theorem pwm_pulse_always_in_range_witness:
  "\<lparr>pw_channel = 0, pw_on = 0, pw_off = 512\<rparr> \<in>
     set (drop (length (pwm_log motion_boot))
       (pwm_log (motion_task_iter (\<lambda>s t e d. t)
          (Some ((posepacket31_init 1)\<lparr>servo_us := [3000, 1500, 1500, 1500, 1500, 1500, 1500, 1500, 1500, 1500, 1500, 1500, 1500]\<rparr>)) 0 motion_boot)))
   \<and> (\<exists>us. 500 \<le> us \<and> us \<le> 2500 \<and> (512 :: 16 word) = pca9685_us_to_ticks us)"
proof -
  let ?w = "\<lparr>pw_channel = 0, pw_on = 0, pw_off = 512 :: 16 word\<rparr>"
  have m: "?w \<in> set (drop (length (pwm_log motion_boot))
       (pwm_log (motion_task_iter (\<lambda>s t e d. t)
          (Some ((posepacket31_init 1)\<lparr>servo_us := [3000, 1500, 1500, 1500, 1500, 1500, 1500, 1500, 1500, 1500, 1500, 1500, 1500]\<rparr>)) 0 motion_boot)))"
    unfolding s1_log upt13 by (simp add: motion_boot_def)
  from pwm_pulse_always_in_range [of 0 0 motion_boot "\<lambda>s t e d. t"
      "Some ((posepacket31_init 1)\<lparr>servo_us := [3000, 1500, 1500, 1500, 1500, 1500, 1500, 1500, 1500, 1500, 1500, 1500, 1500]\<rparr>)" 0] m
  have "\<exists>us. 500 \<le> us \<and> us \<le> 2500 \<and> pw_on ?w = 0 \<and> pw_off ?w = pca9685_us_to_ticks us"
    by blast
  with m show ?thesis by simp
qed

subsection \<open>Claim C2\<close>

lemma pktA_step:
  "mt_s_current_us (motion_task_iter flt
      (Some ((posepacket31_init 1)\<lparr>t_ms := 20, servo_us :=
         [2000, 2000, 2000, 2000, 2000, 2000, 2000, 2000, 2000, 2000, 2000, 2000, 2000]\<rparr>))
      0 motion_boot) =
     [2000, 2000, 2000, 2000, 2000, 2000, 2000, 2000, 2000, 2000, 2000, 2000, 2000]"
  "s_estop_cb (motion_task_iter flt
      (Some ((posepacket31_init 1)\<lparr>t_ms := 20, servo_us :=
         [2000, 2000, 2000, 2000, 2000, 2000, 2000, 2000, 2000, 2000, 2000, 2000, 2000]\<rparr>))
      0 motion_boot) = CB_on_watchdog_estop"
  "pwm_log (motion_task_iter flt
      (Some ((posepacket31_init 1)\<lparr>t_ms := 20, servo_us :=
         [2000, 2000, 2000, 2000, 2000, 2000, 2000, 2000, 2000, 2000, 2000, 2000, 2000]\<rparr>))
      0 motion_boot) =
     map (\<lambda>i. \<lparr>pw_channel = of_nat i, pw_on = 0, pw_off = 409\<rparr>) [0..<SERVO_COUNT_TOTAL]"
proof -
  let ?pkt = "(posepacket31_init 1)\<lparr>t_ms := 20, servo_us :=
         [2000, 2000, 2000, 2000, 2000, 2000, 2000, 2000, 2000, 2000, 2000, 2000, 2000]\<rparr>"
  have 1: "flags ?pkt AND FLAG_ESTOP = 0" "flags ?pkt AND FLAG_HOLD = 0"
    by (simp_all add: posepacket31_init_def flag_vals)
  have 2: "wd_s_state motion_boot \<noteq> WATCHDOG_STATE_ESTOP" by (simp add: motion_boot_def)
  have 3: "t_ms ?pkt \<le> 20" by (simp add: posepacket31_init_def)
  have 4: "memcpy_pose (memcpy_pose (map clamp_servo_us (take SERVO_COUNT_TOTAL (servo_us ?pkt))))
       = [2000, 2000, 2000, 2000, 2000, 2000, 2000, 2000, 2000, 2000, 2000, 2000, 2000]"
    by (simp add: memcpy_pose_def SERVO_COUNT_TOTAL_def clamp_servo_us_def SERVO_PWM_MIN_US_def
        SERVO_PWM_MAX_US_def)
  have 5: "pwm_log motion_boot = []" by (simp add: motion_boot_def)
  show "mt_s_current_us (motion_task_iter flt (Some ?pkt) 0 motion_boot) =
     [2000, 2000, 2000, 2000, 2000, 2000, 2000, 2000, 2000, 2000, 2000, 2000, 2000]"
    unfolding move_snap(1) [OF 1 2 3] 4 by (rule refl)
  show "s_estop_cb (motion_task_iter flt (Some ?pkt) 0 motion_boot) = CB_on_watchdog_estop"
    unfolding move_snap(3) [OF 1 2 3] by (simp add: motion_boot_def)
  show "pwm_log (motion_task_iter flt (Some ?pkt) 0 motion_boot) =
     map (\<lambda>i. \<lparr>pw_channel = of_nat i, pw_on = 0, pw_off = 409\<rparr>) [0..<SERVO_COUNT_TOTAL]"
    unfolding move_snap(4) [OF 1 2 3] 4 5 motion_output_eq upt13
    by (simp add: ticks_vals)
qed

lemma estop_ignores_packets:
  assumes "wd_s_state st = WATCHDOG_STATE_ESTOP"
  shows "mt_s_current_us (motion_task_iter flt (Some pkt) now st) = mt_s_current_us st"
    and "wd_s_state (motion_task_iter flt (Some pkt) now st) = WATCHDOG_STATE_ESTOP"
proof -
  let ?st1 = "watchdog_feed now (st\<lparr>s_last_packet_tick := now\<rparr>)"
  have w: "wd_s_state ?st1 = WATCHDOG_STATE_ESTOP" using assms by (simp add: feed_state)
  show "mt_s_current_us (motion_task_iter flt (Some pkt) now st) = mt_s_current_us st"
    using w
    by (simp add: motion_task_iter_def Let_def motion_tick_tail_def motion_sync_watchdog_def
        watchdog_get_state_def motion_state_machine_def)
  show "wd_s_state (motion_task_iter flt (Some pkt) now st) = WATCHDOG_STATE_ESTOP"
    using w
    by (simp add: motion_task_iter_def Let_def motion_tick_tail_def motion_sync_watchdog_def
        watchdog_get_state_def motion_state_machine_def)
qed

text \<open>
  C2. After the RT side accepts a packet whose ESTOP flag is set, the PWM output of all 13
  channels should be 1500 microseconds (307 ticks) on the next motion tick, and later
  non-ESTOP packets should be ignored until \<open>clear_estop\<close> succeeds. The loop of
  motion\_task.c does not do the first: the ESTOP callback writes the neutral pose to the
  chip, but \<open>s_current_us\<close> keeps the pose reached before, and the output loop of the
  next iteration writes that pose again. Run from start-up: a packet moves every channel
  to 2000 microseconds (409 ticks), the next packet carries ESTOP, the third iteration
  receives nothing. The log is: 13 writes of 409, the 16 neutral writes of the failsafe,
  and then 13 writes of 409 again.
\<close>

theorem estop_next_tick_rewrites_old_pose:
  "pwm_log (motion_task_run flt
      [(Some ((posepacket31_init 1)\<lparr>t_ms := 20, servo_us :=
          [2000, 2000, 2000, 2000, 2000, 2000, 2000, 2000, 2000, 2000, 2000, 2000, 2000]\<rparr>), 0),
       (Some ((posepacket31_init 2)\<lparr>flags := FLAG_CLAMP_ENABLE OR FLAG_ESTOP\<rparr>), 20),
       (None, 40)] motion_boot) =
     map (\<lambda>i. \<lparr>pw_channel = of_nat i, pw_on = 0, pw_off = 409\<rparr>) [0..<SERVO_COUNT_TOTAL] @
     map (\<lambda>i. \<lparr>pw_channel = of_nat i, pw_on = 0, pw_off = 307\<rparr>) [0..<16] @
     map (\<lambda>i. \<lparr>pw_channel = of_nat i, pw_on = 0, pw_off = 409\<rparr>) [0..<SERVO_COUNT_TOTAL]
   \<and> pca9685_us_to_ticks (pca9685_saturate_us 1500) = 307
   \<and> pca9685_us_to_ticks (pca9685_saturate_us 2000) = 409"
proof -
  let ?A = "(posepacket31_init 1)\<lparr>t_ms := 20, servo_us :=
          [2000, 2000, 2000, 2000, 2000, 2000, 2000, 2000, 2000, 2000, 2000, 2000, 2000]\<rparr>"
  let ?E = "(posepacket31_init 2)\<lparr>flags := FLAG_CLAMP_ENABLE OR FLAG_ESTOP\<rparr>"
  let ?st1 = "motion_task_iter flt (Some ?A) 0 motion_boot"
  have f: "flags ?E AND FLAG_ESTOP \<noteq> 0" by (simp add: flag_vals)
  have "pwm_log (motion_task_iter flt None 40 (motion_task_iter flt (Some ?E) 20 ?st1)) =
      motion_output (mt_s_current_us ?st1) (pca9685_set_all_us SERVO_PWM_NEUTRAL_US (pwm_log ?st1))"
    using f pktA_step(2) by (rule tick_after_estop)
  then show ?thesis
    unfolding pktA_step motion_output_eq set_all_us_eq upt13 upt16
    by (simp add: ticks_vals SERVO_PWM_NEUTRAL_US_def)
qed

subsection \<open>Packet validation\<close>

lemma byte_step:
  "crc16_byte c b = crc16_shift (crc16_shift (crc16_shift (crc16_shift
     (crc16_shift (crc16_shift (crc16_shift (crc16_shift (c XOR push_bit 8 (ucast b)))))))))"
  by (simp add: crc16_byte_def numeral_eq_Suc)

lemma init_bytes:
  "take (sizeof_PosePacket31 - 2)
     (posepacket31_bytes ((posepacket31_init sq)\<lparr>flags := fl, crc16 := c\<rparr>)) =
   [0x1A, 0xB3, 3, 1] @ le32 sq @ [0, 0, 0, 0] @ le16 fl @
   [0xDC, 5, 0xDC, 5, 0xDC, 5, 0xDC, 5, 0xDC, 5, 0xDC, 5, 0xDC, 5, 0xDC, 5, 0xDC, 5, 0xDC, 5,
    0xDC, 5, 0xDC, 5, 0xDC, 5]"
  unfolding posepacket31_bytes_def posepacket31_init_def rep13
  by (simp add: sizeof_PosePacket31_def le16_def le32_def SPIDER_MAGIC_def
      SPIDER_VERSION_MAJOR_def SPIDER_VERSION_MINOR_def SERVO_COUNT_TOTAL_def
      SERVO_PWM_NEUTRAL_US_def)

lemma crc_estop_packet:
  "compute_crc16 (posepacket31_bytes ((posepacket31_init 1)\<lparr>flags := 5, crc16 := c\<rparr>))
     (sizeof_PosePacket31 - 2) = 11341"
  unfolding compute_crc16_def crc16_ccitt_false_def init_bytes
  by (simp add: le16_def le32_def byte_step crc16_shift_def CRC16_POLY_def CRC16_INIT_def)

lemma validate_packet_ok:
  assumes "magic pkt = SPIDER_MAGIC" and "ver_major pkt = SPIDER_VERSION_MAJOR"
    and "ver_minor pkt = SPIDER_VERSION_MINOR"
    and "compute_crc16 (posepacket31_bytes pkt) (sizeof_PosePacket31 - 2) = crc16 pkt"
    and "g_last_seq st = 0 \<or> g_last_seq st < seq pkt"
  shows "validate_packet pkt st = (0, st)"
  using assms by (auto simp: validate_packet_def not_le)

lemma validate_packet_passes:
  "fst (validate_packet pkt st) = 0 \<Longrightarrow> validate_packet pkt st = (0, st)"
  by (simp add: validate_packet_def split: if_splits)

lemma handle_estop_fields [simp]:
  "g_estop_active (handle_estop st)"
  "s_last_feed_tick (handle_estop st) = s_last_feed_tick st"
  "g_last_seq (handle_estop st) = g_last_seq st"
  "wd_s_state (handle_estop st) = wd_s_state st"
  by (simp_all add: handle_estop_def Let_def set_all_servos_neutral_def fault_flags_set_def)

subsection \<open>Claim C3\<close>

text \<open>
  C3 (as amended). When the motion runtime receives a validated packet with the ESTOP flag
  set, it feeds the watchdog first (the last-feed tick becomes the current tick) and then
  enters the ESTOP state. This holds on both consumers: the loop of motion\_task.c ends with
  its own state and the watchdog state in ESTOP, and \<open>process_shared_buffer_packets\<close>
  of app\_main\_v1.c runs \<open>handle_estop\<close> on the fed state and does not count the
  packet as applied.
\<close>

theorem estop_packet_feeds_watchdog:
  assumes "flags pkt AND FLAG_ESTOP \<noteq> 0"
  shows "(mt_s_state (motion_task_iter flt (Some pkt) now st) = MOTION_STATE_ESTOP \<and>
          wd_s_state (motion_task_iter flt (Some pkt) now st) = WATCHDOG_STATE_ESTOP \<and>
          s_last_feed_tick (motion_task_iter flt (Some pkt) now st) = now) \<and>
         (fst (validate_packet pkt v) = 0 \<longrightarrow>
            process_packet now pkt v = (False, handle_estop (watchdog_feed now v)) \<and>
            g_estop_active (snd (process_packet now pkt v)) \<and>
            s_last_feed_tick (snd (process_packet now pkt v)) = now)"
proof
  show "mt_s_state (motion_task_iter flt (Some pkt) now st) = MOTION_STATE_ESTOP \<and>
          wd_s_state (motion_task_iter flt (Some pkt) now st) = WATCHDOG_STATE_ESTOP \<and>
          s_last_feed_tick (motion_task_iter flt (Some pkt) now st) = now"
    unfolding iter_estop [OF assms] by simp
  show "fst (validate_packet pkt v) = 0 \<longrightarrow>
            process_packet now pkt v = (False, handle_estop (watchdog_feed now v)) \<and>
            g_estop_active (snd (process_packet now pkt v)) \<and>
            s_last_feed_tick (snd (process_packet now pkt v)) = now"
  proof
    assume "fst (validate_packet pkt v) = 0"
    then have "validate_packet pkt v = (0, v)" by (rule validate_packet_passes)
    then have "process_packet now pkt v = (False, handle_estop (watchdog_feed now v))"
      using assms by (simp add: process_packet_def Let_def)
    then show "process_packet now pkt v = (False, handle_estop (watchdog_feed now v)) \<and>
            g_estop_active (snd (process_packet now pkt v)) \<and>
            s_last_feed_tick (snd (process_packet now pkt v)) = now"
      by simp
  qed
qed

lemma estop_packet_valid:
  "validate_packet ((posepacket31_init 1)\<lparr>flags := 5, crc16 := 11341\<rparr>) app_v1_boot =
     (0, app_v1_boot)"
proof (rule validate_packet_ok)
  show "compute_crc16 (posepacket31_bytes ((posepacket31_init 1)\<lparr>flags := 5, crc16 := 11341\<rparr>))
     (sizeof_PosePacket31 - 2) = crc16 ((posepacket31_init 1)\<lparr>flags := 5, crc16 := 11341\<rparr>)"
    unfolding crc_estop_packet by simp
qed (simp_all add: posepacket31_init_def app_v1_boot_def)

theorem estop_packet_feeds_watchdog_witness:
  "flags ((posepacket31_init 1)\<lparr>flags := 5, crc16 := 11341\<rparr>) AND FLAG_ESTOP \<noteq> 0 \<and>
   fst (validate_packet ((posepacket31_init 1)\<lparr>flags := 5, crc16 := 11341\<rparr>) app_v1_boot) = 0 \<and>
   s_last_feed_tick (motion_task_iter (\<lambda>s t e d. t)
      (Some ((posepacket31_init 1)\<lparr>flags := 5, crc16 := 11341\<rparr>)) 1000 motion_boot) = 1000 \<and>
   s_last_feed_tick (snd (process_packet 1000
      ((posepacket31_init 1)\<lparr>flags := 5, crc16 := 11341\<rparr>) app_v1_boot)) = 1000"
proof -
  let ?E = "(posepacket31_init 1)\<lparr>flags := 5, crc16 := 11341\<rparr>"
  have f: "flags ?E AND FLAG_ESTOP \<noteq> 0" by (simp add: flag_vals)
  have v: "fst (validate_packet ?E app_v1_boot) = 0" by (simp add: estop_packet_valid)
  from estop_packet_feeds_watchdog [OF f, of "\<lambda>s t e d. t" 1000 motion_boot app_v1_boot] v f
  show ?thesis by blast
qed

text \<open>
  C3, as stated (no feed on the path of an ESTOP packet), fails: on both consumers
  the last-feed tick changes from 0 to the tick at which the ESTOP packet is processed.
\<close>

theorem estop_packet_not_fed_counterexample:
  "s_last_feed_tick (motion_task_iter (\<lambda>s t e d. t)
      (Some ((posepacket31_init 1)\<lparr>flags := 5, crc16 := 11341\<rparr>)) 1000 motion_boot)
     \<noteq> s_last_feed_tick motion_boot \<and>
   s_last_feed_tick (snd (process_packet 1000
      ((posepacket31_init 1)\<lparr>flags := 5, crc16 := 11341\<rparr>) app_v1_boot))
     \<noteq> s_last_feed_tick app_v1_boot"
proof -
  let ?E = "(posepacket31_init 1)\<lparr>flags := 5, crc16 := 11341\<rparr>"
  have f: "flags ?E AND FLAG_ESTOP \<noteq> 0" by (simp add: flag_vals)
  have 1: "s_last_feed_tick (motion_task_iter (\<lambda>s t e d. t) (Some ?E) 1000 motion_boot) = 1000"
    unfolding iter_estop [OF f] by simp
  have 2: "s_last_feed_tick (snd (process_packet 1000 ?E app_v1_boot)) = 1000"
    using f by (simp add: process_packet_def estop_packet_valid Let_def)
  show ?thesis unfolding 1 2 by (simp add: motion_boot_def app_v1_boot_def)
qed

subsection \<open>Claim C4\<close>

lemma list_update_Cons_numeral:
  "(x # xs)[numeral k := v] = x # xs[numeral k - 1 := v]"
  by (simp add: numeral_eq_Suc)

lemma list_update_Cons_one:
  "(x # xs)[1 := v] = x # xs[0 := v]"
  by simp

lemma rep8: "replicate 8 x = [x, x, x, x, x, x, x, x]"
  by (simp add: numeral_eq_Suc)

lemma writePacket_flags:
  "SharedMemory_writePacket (Some buf) p = (ok, Some buf1, out) \<Longrightarrow> sb_flags buf1 = sb_flags buf"
  by (cases p) (auto simp: SharedMemory_writePacket_def Let_def split: if_splits)

lemma ring_full_empty:
  "shared_buffer_is_empty buf = (write_idx buf = read_idx buf)"
  "shared_buffer_is_full buf = (8 \<le> write_idx buf - read_idx buf)"
  "SharedMemory_isFull (Some buf) = shared_buffer_is_full buf"
  "write_idx buf - read_idx buf \<le> 8 \<Longrightarrow>
     shared_buffer_is_full buf = (write_idx buf - read_idx buf = 8)"
  by (auto simp: shared_buffer_is_empty_def shared_buffer_is_full_def SharedMemory_isFull_def
      PACKET_RING_SIZE_def)

lemma writePacket_step:
  "write_idx buf - read_idx buf < 8 \<Longrightarrow>
   SharedMemory_writePacket (Some buf) (Some p) =
     (True,
      Some (buf\<lparr>packets := (packets buf)[unat (write_idx buf mod 8) := p],
               write_idx := write_idx buf + 1\<rparr>),
      Some (write_idx buf + 1))"
  "8 \<le> write_idx buf - read_idx buf \<Longrightarrow>
   SharedMemory_writePacket (Some buf) (Some p) = (False, Some buf, None)"
  by (simp_all add: SharedMemory_writePacket_def Let_def PACKET_RING_SIZE_def not_le)

text \<open>
  C4. Starting from an empty ring, eight consecutive \<open>writePacket\<close> calls with no
  drain in between succeed and the ninth returns failure; the ring is empty iff
  \<open>write_idx = read_idx\<close> and is reported full iff \<open>write_idx - read_idx \<ge> 8\<close>
  (which is \<open>= 8\<close> as long as the difference never exceeds 8). The claim adds that the
  ninth call sets the OVERFLOW flag in the header: \<open>SharedMemory::writePacket\<close> does not
  (it never writes the flags word, lemma \<open>writePacket_flags\<close>). Evaluated on nine
  arbitrary packets from the freshly mapped ring: the results are eight times true and
  once false, the header ends with \<open>write_idx = 8\<close>, \<open>read_idx = 0\<close> and
  \<open>flags = 0\<close>, so the OVERFLOW bit is clear.
\<close>

theorem ninth_push_fails_overflow_not_set:
  "shared_buffer_is_empty SharedMemory_map \<and>
   writePackets (Some SharedMemory_map) [p1, p2, p3, p4, p5, p6, p7, p8, p9] =
     ([True, True, True, True, True, True, True, True, False],
      Some \<lparr>write_idx = 8, read_idx = 0, sb_flags = 0, reserved = 0,
            packets = [p1, p2, p3, p4, p5, p6, p7, p8]\<rparr>) \<and>
   shared_buffer_is_full \<lparr>write_idx = 8, read_idx = 0, sb_flags = 0, reserved = 0,
            packets = [p1, p2, p3, p4, p5, p6, p7, p8]\<rparr> \<and>
   (0 :: 32 word) AND SHARED_FLAG_OVERFLOW = 0 \<and> SHARED_FLAG_OVERFLOW \<noteq> 0"
  unfolding SharedMemory_map_def rep8
  by (simp add: writePacket_step ring_full_empty SHARED_FLAG_OVERFLOW_def
      list_update_Cons_numeral list_update_Cons_one)

subsection \<open>Claims C5 and C10\<close>

lemma crc_seq0: 
  "compute_crc16 (posepacket31_bytes ((posepacket31_init 0)\<lparr>flags := 4, crc16 := c\<rparr>))
     (sizeof_PosePacket31 - 2) = 8600"
  unfolding compute_crc16_def crc16_ccitt_false_def init_bytes
  by (simp add: le16_def le32_def byte_step crc16_shift_def CRC16_POLY_def CRC16_INIT_def)

lemma crc_seq5:
  "compute_crc16 (posepacket31_bytes ((posepacket31_init 5)\<lparr>flags := 4, crc16 := c\<rparr>))
     (sizeof_PosePacket31 - 2) = 44509"
  unfolding compute_crc16_def crc16_ccitt_false_def init_bytes
  by (simp add: le16_def le32_def byte_step crc16_shift_def CRC16_POLY_def CRC16_INIT_def)

lemma crc_seq7:
  "compute_crc16 (posepacket31_bytes ((posepacket31_init 7)\<lparr>flags := 4, crc16 := c\<rparr>))
     (sizeof_PosePacket31 - 2) = 65375"
  unfolding compute_crc16_def crc16_ccitt_false_def init_bytes
  by (simp add: le16_def le32_def byte_step crc16_shift_def CRC16_POLY_def CRC16_INIT_def)

lemma init_header [simp]:
  "magic ((posepacket31_init sq)\<lparr>flags := fl, crc16 := c\<rparr>) = SPIDER_MAGIC"
  "ver_major ((posepacket31_init sq)\<lparr>flags := fl, crc16 := c\<rparr>) = SPIDER_VERSION_MAJOR"
  "ver_minor ((posepacket31_init sq)\<lparr>flags := fl, crc16 := c\<rparr>) = SPIDER_VERSION_MINOR"
  "seq ((posepacket31_init sq)\<lparr>flags := fl, crc16 := c\<rparr>) = sq"
  by (simp_all add: posepacket31_init_def)

lemma validate_packet_state:
  "g_last_seq (snd (validate_packet pkt st)) = g_last_seq st"
  "g_estop_active (snd (validate_packet pkt st)) = g_estop_active st"
  by (simp_all add: validate_packet_def fault_flags_set_def)

lemma validate_packet_zero:
  "fst (validate_packet pkt st) = 0 \<Longrightarrow> g_last_seq st = 0 \<or> g_last_seq st < seq pkt"
  by (auto simp: validate_packet_def not_le split: if_splits)

lemma apply_servo_values_fields [simp]:
  "g_last_seq (apply_servo_values pkt st) = g_last_seq st"
  "g_rx_count (apply_servo_values pkt st) = g_rx_count st"
  "g_estop_active (apply_servo_values pkt st) = g_estop_active st"
  by (simp_all add: apply_servo_values_def)

lemma feed_v1_fields [simp]:
  "g_last_seq (watchdog_feed now st) = g_last_seq st"
  "g_rx_count (watchdog_feed now st) = g_rx_count st"
  "g_estop_active (watchdog_feed now st) = g_estop_active st"
  by (simp_all add: watchdog_feed_def Let_def fault_flags_clear_def)

lemma process_packet_last_seq:
  "g_last_seq (snd (process_packet now pkt st)) =
     (if fst (process_packet now pkt st) then seq pkt else g_last_seq st)"
proof (cases "validate_packet pkt st")
  case (Pair rc st1)
  then have "g_last_seq st1 = g_last_seq st"
    using validate_packet_state(1) [of pkt st] by simp
  then show ?thesis using Pair by (simp add: process_packet_def Let_def)
qed

lemma process_packet_applied:
  "fst (process_packet now pkt st) \<Longrightarrow> g_last_seq st = 0 \<or> g_last_seq st < seq pkt"
proof (cases "validate_packet pkt st")
  case (Pair rc st1)
  assume a: "fst (process_packet now pkt st)"
  have "rc = 0" using a Pair by (simp add: process_packet_def Let_def split: if_splits)
  then have "fst (validate_packet pkt st) = 0" using Pair by simp
  then show ?thesis by (rule validate_packet_zero)
qed

lemma process_packet_ok:
  assumes "validate_packet pkt st = (0, st)" and "flags pkt AND FLAG_ESTOP = 0"
  shows "process_packet now pkt st =
     (True, (apply_servo_values pkt (watchdog_feed now st))
              \<lparr>g_last_seq := seq pkt, g_rx_count := g_rx_count st + 1\<rparr>)"
  using assms by (simp add: process_packet_def Let_def)

lemma consume_seq_increasing:
  "seq_increasing (g_last_seq st) (fst (consume ins st))"
proof (induction ins arbitrary: st)
  case Nil
  show ?case by simp
next
  case (Cons a ins)
  obtain now pkt where a: "a = (now, pkt)" by (cases a)
  show ?case
  proof (cases "g_estop_active st")
    case True
    then show ?thesis using Cons.IH [of st] a by simp
  next
    case False
    obtain applied st1 where p: "process_packet now pkt st = (applied, st1)"
      by (cases "process_packet now pkt st")
    obtain acc st2 where c: "consume ins st1 = (acc, st2)" by (cases "consume ins st1")
    have l: "g_last_seq st1 = (if applied then seq pkt else g_last_seq st)"
      using process_packet_last_seq [of now pkt st] p by simp
    have ih: "seq_increasing (g_last_seq st1) acc" using Cons.IH [of st1] c by simp
    show ?thesis
    proof (cases applied)
      case True
      then have "g_last_seq st = 0 \<or> g_last_seq st < seq pkt"
        using process_packet_applied [of now pkt st] p by simp
      then show ?thesis using True False a p c l ih by simp
    next
      case f: False
      then show ?thesis using False a p c l ih by simp
    qed
  qed
qed

text \<open>
  C5 (as amended). For consecutively applied packets \<open>p1\<close> then \<open>p2\<close> with
  \<open>p1.seq \<noteq> 0\<close>, \<open>p2.seq > p1.seq\<close>: over any sequence of slot contents and
  from any state, the applied packets have strictly growing sequence numbers, except
  after a packet (or an initial \<open>g_last_seq\<close>) with sequence number 0, which constrains
  nothing. The validation drops (return value \<open>-4\<close>, drop counter incremented, nothing
  applied) a well-formed packet whose sequence number is equal to or lower than the last
  applied one only when that last one is not 0.
\<close>

theorem applied_seq_increasing_after_nonzero:
  "seq_increasing (g_last_seq st) (fst (consume ins st)) \<and>
   (magic pkt = SPIDER_MAGIC \<and> ver_major pkt = SPIDER_VERSION_MAJOR \<and>
    ver_minor pkt = SPIDER_VERSION_MINOR \<and>
    compute_crc16 (posepacket31_bytes pkt) (sizeof_PosePacket31 - 2) = crc16 pkt \<and>
    g_last_seq st \<noteq> 0 \<and> seq pkt \<le> g_last_seq st \<longrightarrow>
    validate_packet pkt st = (- 4, st\<lparr>g_drop_count := g_drop_count st + 1\<rparr>) \<and>
    process_packet now pkt st = (False, st\<lparr>g_drop_count := g_drop_count st + 1\<rparr>))"
proof
  show "seq_increasing (g_last_seq st) (fst (consume ins st))" by (rule consume_seq_increasing)
  show "magic pkt = SPIDER_MAGIC \<and> ver_major pkt = SPIDER_VERSION_MAJOR \<and>
    ver_minor pkt = SPIDER_VERSION_MINOR \<and>
    compute_crc16 (posepacket31_bytes pkt) (sizeof_PosePacket31 - 2) = crc16 pkt \<and>
    g_last_seq st \<noteq> 0 \<and> seq pkt \<le> g_last_seq st \<longrightarrow>
    validate_packet pkt st = (- 4, st\<lparr>g_drop_count := g_drop_count st + 1\<rparr>) \<and>
    process_packet now pkt st = (False, st\<lparr>g_drop_count := g_drop_count st + 1\<rparr>)"
    by (simp add: validate_packet_def process_packet_def)
qed

lemma seq5_then_seq7:
  "validate_packet ((posepacket31_init 5)\<lparr>flags := 4, crc16 := 44509\<rparr>) app_v1_boot =
     (0, app_v1_boot)"
  "g_last_seq st = 5 \<Longrightarrow>
   validate_packet ((posepacket31_init 7)\<lparr>flags := 4, crc16 := 65375\<rparr>) st = (0, st)"
  "g_last_seq st = 5 \<Longrightarrow>
   validate_packet ((posepacket31_init 5)\<lparr>flags := 4, crc16 := 44509\<rparr>) st =
     (- 4, st\<lparr>g_drop_count := g_drop_count st + 1\<rparr>)"
  by (simp_all add: validate_packet_def crc_seq5 crc_seq7 app_v1_boot_def)

theorem applied_seq_increasing_after_nonzero_witness:
  "fst (consume [(0, (posepacket31_init 5)\<lparr>flags := 4, crc16 := 44509\<rparr>),
                 (20, (posepacket31_init 5)\<lparr>flags := 4, crc16 := 44509\<rparr>),
                 (40, (posepacket31_init 7)\<lparr>flags := 4, crc16 := 65375\<rparr>)] app_v1_boot) =
     [(posepacket31_init 5)\<lparr>flags := 4, crc16 := 44509\<rparr>,
      (posepacket31_init 7)\<lparr>flags := 4, crc16 := 65375\<rparr>] \<and>
   seq_increasing 0 [(posepacket31_init 5)\<lparr>flags := 4, crc16 := 44509\<rparr>,
      (posepacket31_init 7)\<lparr>flags := 4, crc16 := 65375\<rparr>] \<and>
   validate_packet ((posepacket31_init 5)\<lparr>flags := 4, crc16 := 44509\<rparr>)
      (app_v1_boot\<lparr>g_last_seq := 5\<rparr>) =
     (- 4, app_v1_boot\<lparr>g_last_seq := 5, g_drop_count := 1\<rparr>)"
proof -
  let ?P5 = "(posepacket31_init 5)\<lparr>flags := 4, crc16 := 44509\<rparr>"
  let ?P7 = "(posepacket31_init 7)\<lparr>flags := 4, crc16 := 65375\<rparr>"
  let ?ins = "[(0, ?P5), (20, ?P5), (40, ?P7)]"
  have fl: "flags ?P5 AND FLAG_ESTOP = 0" "flags ?P7 AND FLAG_ESTOP = 0"
    by (simp_all add: flag_vals)
  have e: "\<not> g_estop_active app_v1_boot" by (simp add: app_v1_boot_def)
  have c: "fst (consume ?ins app_v1_boot) = [?P5, ?P7]"
    using e fl
    by (simp add: process_packet_ok seq5_then_seq7 process_packet_def Let_def)
  have g: "g_last_seq app_v1_boot = 0" by (simp add: app_v1_boot_def)
  have h: "magic ?P5 = SPIDER_MAGIC \<and> ver_major ?P5 = SPIDER_VERSION_MAJOR \<and>
    ver_minor ?P5 = SPIDER_VERSION_MINOR \<and>
    compute_crc16 (posepacket31_bytes ?P5) (sizeof_PosePacket31 - 2) = crc16 ?P5 \<and>
    g_last_seq (app_v1_boot\<lparr>g_last_seq := 5\<rparr>) \<noteq> 0 \<and>
    seq ?P5 \<le> g_last_seq (app_v1_boot\<lparr>g_last_seq := 5\<rparr>)"
    by (simp add: crc_seq5)
  have d: "g_drop_count app_v1_boot = 0" by (simp add: app_v1_boot_def)
  have i: "seq_increasing (g_last_seq app_v1_boot) (fst (consume ?ins app_v1_boot))"
    using applied_seq_increasing_after_nonzero [where st = app_v1_boot and ins = ?ins]
    by (rule conjunct1)
  have v: "validate_packet ?P5 (app_v1_boot\<lparr>g_last_seq := 5\<rparr>) =
     (- 4, app_v1_boot\<lparr>g_last_seq := 5, g_drop_count := g_drop_count (app_v1_boot\<lparr>g_last_seq := 5\<rparr>) + 1\<rparr>)"
    using applied_seq_increasing_after_nonzero
      [where st = "app_v1_boot\<lparr>g_last_seq := 5\<rparr>" and pkt = ?P5 and now = 0 and ins = "[]"] h
    by blast
  show ?thesis using i v unfolding c g by (simp add: d)
qed

text \<open>
  C5, as stated, fails at sequence number 0: a valid packet with \<open>seq = 0\<close> is
  applied twice in a row from start-up, and the second is not greater than the first.
\<close>

lemma seq0_valid:
  "g_last_seq st = 0 \<Longrightarrow>
   validate_packet ((posepacket31_init 0)\<lparr>flags := 4, crc16 := 8600\<rparr>) st = (0, st)"
  by (simp add: validate_packet_def crc_seq0)

theorem seq_zero_applied_twice_counterexample:
  "fst (consume [(0, (posepacket31_init 0)\<lparr>flags := 4, crc16 := 8600\<rparr>),
                 (20, (posepacket31_init 0)\<lparr>flags := 4, crc16 := 8600\<rparr>)] app_v1_boot) =
     [(posepacket31_init 0)\<lparr>flags := 4, crc16 := 8600\<rparr>,
      (posepacket31_init 0)\<lparr>flags := 4, crc16 := 8600\<rparr>] \<and>
   \<not> seq ((posepacket31_init 0)\<lparr>flags := 4, crc16 := 8600\<rparr>)
       < seq ((posepacket31_init 0)\<lparr>flags := 4, crc16 := 8600\<rparr>)"
proof -
  let ?P0 = "(posepacket31_init 0)\<lparr>flags := 4, crc16 := 8600\<rparr>"
  have fl: "flags ?P0 AND FLAG_ESTOP = 0" by (simp add: flag_vals)
  have e: "\<not> g_estop_active app_v1_boot" "g_last_seq app_v1_boot = 0"
    by (simp_all add: app_v1_boot_def)
  show ?thesis
    using e fl by (simp add: process_packet_ok seq0_valid)
qed

text \<open>
  C10. While the consumer's \<open>g_last_seq\<close> is 0 (as at start-up: nothing applied yet),
  the staleness check is off: \<open>validate_packet\<close> accepts a packet with a good magic,
  version and CRC whatever its sequence number, 0 and numbers lower than earlier ones
  included, and changes nothing. A well-formed packet gets \<open>-4\<close> exactly when
  \<open>seq \<le> g_last_seq\<close> and \<open>g_last_seq \<noteq> 0\<close>, and \<open>g_last_seq\<close> changes only when
  a packet is applied (to that packet's sequence number), so the rule can only come into
  force after a packet was applied.
\<close>

theorem staleness_check_off_while_last_seq_zero:
  assumes "g_last_seq st = 0"
    and "magic pkt = SPIDER_MAGIC" and "ver_major pkt = SPIDER_VERSION_MAJOR"
    and "ver_minor pkt = SPIDER_VERSION_MINOR"
    and "compute_crc16 (posepacket31_bytes pkt) (sizeof_PosePacket31 - 2) = crc16 pkt"
  shows "validate_packet pkt st = (0, st) \<and>
         (fst (validate_packet pkt st1) = - 4) =
           (seq pkt \<le> g_last_seq st1 \<and> g_last_seq st1 \<noteq> 0) \<and>
         g_last_seq (snd (process_packet now pkt st1)) =
           (if fst (process_packet now pkt st1) then seq pkt else g_last_seq st1) \<and>
         g_last_seq app_v1_boot = 0"
  using assms process_packet_last_seq [of now pkt st1]
  by (simp add: validate_packet_def app_v1_boot_def)

theorem staleness_check_off_while_last_seq_zero_witness:
  "g_last_seq (app_v1_boot\<lparr>g_drop_count := 3\<rparr>) = 0 \<and>
   validate_packet ((posepacket31_init 0)\<lparr>flags := 4, crc16 := 8600\<rparr>)
     (app_v1_boot\<lparr>g_drop_count := 3\<rparr>) = (0, app_v1_boot\<lparr>g_drop_count := 3\<rparr>) \<and>
   validate_packet ((posepacket31_init 5)\<lparr>flags := 4, crc16 := 44509\<rparr>)
     (app_v1_boot\<lparr>g_drop_count := 3\<rparr>) = (0, app_v1_boot\<lparr>g_drop_count := 3\<rparr>)"
proof -
  let ?P0 = "(posepacket31_init 0)\<lparr>flags := 4, crc16 := 8600\<rparr>"
  let ?P5 = "(posepacket31_init 5)\<lparr>flags := 4, crc16 := 44509\<rparr>"
  let ?st = "app_v1_boot\<lparr>g_drop_count := 3\<rparr>"
  have g: "g_last_seq ?st = 0" by (simp add: app_v1_boot_def)
  have c0: "compute_crc16 (posepacket31_bytes ?P0) (sizeof_PosePacket31 - 2) = crc16 ?P0"
    by (simp add: crc_seq0)
  have c5: "compute_crc16 (posepacket31_bytes ?P5) (sizeof_PosePacket31 - 2) = crc16 ?P5"
    by (simp add: crc_seq5)
  have 0: "validate_packet ?P0 ?st = (0, ?st)"
    using staleness_check_off_while_last_seq_zero
      [OF g init_header(1) init_header(2) init_header(3) c0, where ?st1.0 = ?st and now = 0]
    by (rule conjunct1)
  have 5: "validate_packet ?P5 ?st = (0, ?st)"
    using staleness_check_off_while_last_seq_zero
      [OF g init_header(1) init_header(2) init_header(3) c5, where ?st1.0 = ?st and now = 0]
    by (rule conjunct1)
  show ?thesis using g 0 5 by simp
qed

subsection \<open>Claims C6 and C9\<close>

lemma pdMS_vals [simp]:
  "pdMS_TO_TICKS HEARTBEAT_TIMEOUT_MS = 250"
  "pdMS_TO_TICKS WATCHDOG_CHECK_PERIOD_MS = 25"
  by (simp_all add: pdMS_TO_TICKS_def HEARTBEAT_TIMEOUT_MS_def WATCHDOG_CHECK_PERIOD_MS_def)

lemma or_and_self:
  "(x OR f) AND f = (f :: 32 word)"
  "(x OR f OR g) AND f = (f :: 32 word)"
  "((x OR f) OR g) AND f = (f :: 32 word)"
  by (auto simp: bit_eq_iff bit_and_iff bit_or_iff)

lemma and_not_and_self:
  "(x AND NOT f) AND f = (0 :: 32 word)"
  by (auto simp: bit_eq_iff bit_and_iff bit_not_iff)

lemma check_timeout_fields:
  assumes "wd_s_state st = WATCHDOG_STATE_NORMAL"
  shows "wd_s_state (watchdog_check_timeout st) = WATCHDOG_STATE_TIMEOUT"
    and "s_last_feed_tick (watchdog_check_timeout st) = s_last_feed_tick st"
    and "fault_flags_is_set FAULT_HEARTBEAT_TIMEOUT (watchdog_check_timeout st)"
proof -
  let ?st1 = "fault_flags_set FAULT_HEARTBEAT_TIMEOUT (st\<lparr>wd_s_state := WATCHDOG_STATE_TIMEOUT\<rparr>)"
  have e: "watchdog_check_timeout st =
     (if s_timeout_cb ?st1 \<noteq> CB_NULL then invoke_callback (s_timeout_cb ?st1) ?st1 else ?st1)"
    using assms by (simp add: watchdog_check_timeout_def Let_def)
  have f: "s_fault_flags (invoke_callback cb ?st1) AND FAULT_HEARTBEAT_TIMEOUT \<noteq> 0" for cb
    by (cases cb)
      (simp_all add: fault_flags_set_def failsafe_enter_estop_def failsafe_set_safe_pose_def
        or_and_self FAULT_HEARTBEAT_TIMEOUT_def)
  show "wd_s_state (watchdog_check_timeout st) = WATCHDOG_STATE_TIMEOUT"
    unfolding e by (simp add: fault_flags_set_def)
  show "s_last_feed_tick (watchdog_check_timeout st) = s_last_feed_tick st"
    unfolding e by (simp add: fault_flags_set_def)
  have g: "s_fault_flags ?st1 AND FAULT_HEARTBEAT_TIMEOUT \<noteq> 0"
    using f [of CB_NULL] by simp
  show "fault_flags_is_set FAULT_HEARTBEAT_TIMEOUT (watchdog_check_timeout st)"
    unfolding e fault_flags_is_set_def using f g by simp
qed


lemma step_normal:
  "wd_s_state st = WATCHDOG_STATE_NORMAL \<Longrightarrow> now - s_last_feed_tick st \<le> 250 \<Longrightarrow>
   watchdog_task_step now st = st"
  by (simp add: watchdog_task_step_def Let_def not_less)

lemma step_timeout:
  assumes "wd_s_state st = WATCHDOG_STATE_NORMAL" and "250 < now - s_last_feed_tick st"
  shows "wd_s_state (watchdog_task_step now st) = WATCHDOG_STATE_HOLD"
    and "watchdog_task_step now st = watchdog_check_hold (watchdog_check_timeout st)"
    and "fault_flags_is_set FAULT_HEARTBEAT_TIMEOUT (watchdog_task_step now st)"
proof -
  show e: "watchdog_task_step now st = watchdog_check_hold (watchdog_check_timeout st)"
    using assms by (simp add: watchdog_task_step_def Let_def)
  have t: "wd_s_state (watchdog_check_timeout st) = WATCHDOG_STATE_TIMEOUT"
    using assms(1) by (rule check_timeout_fields(1))
  show "wd_s_state (watchdog_task_step now st) = WATCHDOG_STATE_HOLD"
    unfolding e using t by (simp add: watchdog_check_hold_def failsafe_enter_hold_def)
  show "fault_flags_is_set FAULT_HEARTBEAT_TIMEOUT (watchdog_task_step now st)"
    unfolding e using t check_timeout_fields(3) [OF assms(1)]
    by (simp add: watchdog_check_hold_def failsafe_enter_hold_def fault_flags_is_set_def)
qed

lemma step_hold:
  "wd_s_state st = WATCHDOG_STATE_HOLD \<Longrightarrow> watchdog_task_step now st = st"
  by (simp add: watchdog_task_step_def Let_def watchdog_check_timeout_def watchdog_check_hold_def)

lemma entry_hold:
  "wd_s_state st = WATCHDOG_STATE_HOLD \<Longrightarrow> watchdog_task_entry n now st = st"
  by (induction n arbitrary: now) (simp_all add: step_hold)

lemma entry_normal:
  "wd_s_state st = WATCHDOG_STATE_NORMAL \<Longrightarrow>
   unat (c - s_last_feed_tick st) + 25 * n < 2 ^ 32 \<Longrightarrow>
   wd_s_state (watchdog_task_entry n c st) =
     (if n = 0 \<or> unat (c - s_last_feed_tick st) + 25 * (n - 1) \<le> 250
      then WATCHDOG_STATE_NORMAL else WATCHDOG_STATE_HOLD)"
proof (induction n arbitrary: c)
  case 0
  then show ?case by simp
next
  case (Suc n)
  let ?t0 = "s_last_feed_tick st"
  let ?e0 = "unat (c - ?t0)"
  have le: "(c - ?t0 \<le> 250) = (?e0 \<le> 250)" by (simp add: word_le_nat_alt)
  show ?case
  proof (cases "?e0 \<le> 250")
    case True
    then have s: "watchdog_task_step c st = st"
      using Suc.prems(1) le by (simp add: step_normal)
    have eq: "c + 25 - ?t0 = (c - ?t0) + 25" by simp
    have u0: "unat ((c - ?t0) + 25) = ?e0 + 25"
      using Suc.prems(2) by (simp add: unat_word_ariths)
    have u: "unat (c + 25 - ?t0) = ?e0 + 25" unfolding eq by (rule u0)
    have "unat (c + 25 - ?t0) + 25 * n < 2 ^ 32" using Suc.prems(2) u by simp
    from Suc.IH [OF Suc.prems(1) this]
    show ?thesis using s u True by (cases n) auto
  next
    case False
    then have "250 < c - ?t0" using le by (simp add: not_le)
    from step_timeout(1) [OF Suc.prems(1) this]
    have "wd_s_state (watchdog_task_step c st) = WATCHDOG_STATE_HOLD" .
    then show ?thesis using False by (simp add: entry_hold)
  qed
qed

lemma feed_normal:
  "wd_s_state st \<noteq> WATCHDOG_STATE_ESTOP \<Longrightarrow>
   wd_s_state (watchdog_feed t0 st) = WATCHDOG_STATE_NORMAL"
  by (simp add: feed_state)

lemma entry_last_step:
  "watchdog_task_entry (Suc n) c st =
     watchdog_task_step (c + 25 * of_nat n) (watchdog_task_entry n c st)"
proof (induction n arbitrary: c st)
  case 0
  show ?case by simp
next
  case (Suc n)
  have "watchdog_task_entry (Suc (Suc n)) c st =
      watchdog_task_entry (Suc n) (c + 25) (watchdog_task_step c st)"
    by simp
  also have "\<dots> = watchdog_task_step (c + 25 + 25 * of_nat n)
      (watchdog_task_entry n (c + 25) (watchdog_task_step c st))"
    by (rule Suc.IH)
  also have "c + 25 + 25 * of_nat n = c + 25 * of_nat (Suc n)"
    by (simp add: algebra_simps)
  also have "watchdog_task_entry n (c + 25) (watchdog_task_step c st) =
      watchdog_task_entry (Suc n) c st"
    by simp
  finally show ?case .
qed

lemma entry_within_limit:
  "wd_s_state st = WATCHDOG_STATE_NORMAL \<Longrightarrow>
   unat (c - s_last_feed_tick st) + 25 * n < 2 ^ 32 \<Longrightarrow>
   n = 0 \<or> unat (c - s_last_feed_tick st) + 25 * (n - 1) \<le> 250 \<Longrightarrow>
   watchdog_task_entry n c st = st"
proof (induction n arbitrary: c)
  case 0
  show ?case by simp
next
  case (Suc n)
  let ?t0 = "s_last_feed_tick st"
  let ?e0 = "unat (c - ?t0)"
  have l: "?e0 + 25 * n \<le> 250" using Suc.prems(3) by simp
  then have "?e0 \<le> 250" by simp
  then have "c - ?t0 \<le> 250" by (simp add: word_le_nat_alt)
  then have s: "watchdog_task_step c st = st"
    using Suc.prems(1) by (simp add: step_normal)
  have eq: "c + 25 - ?t0 = (c - ?t0) + 25" by simp
  have u0: "unat ((c - ?t0) + 25) = ?e0 + 25"
    using Suc.prems(2) by (simp add: unat_word_ariths)
  have u: "unat (c + 25 - ?t0) = ?e0 + 25" unfolding eq by (rule u0)
  have p2: "unat (c + 25 - ?t0) + 25 * n < 2 ^ 32" using Suc.prems(2) u by simp
  have p3: "n = 0 \<or> unat (c + 25 - ?t0) + 25 * (n - 1) \<le> 250"
    using l u by (cases n) simp_all
  have "watchdog_task_entry n (c + 25) st = st"
    using Suc.prems(1) p2 p3 by (rule Suc.IH)
  then show ?case using s by simp
qed

lemma elapsed_at_check:
  assumes "unat (c - t0) + 25 * k < 2 ^ 32"
  shows "unat (c + 25 * of_nat k - (t0 :: 32 word)) = unat (c - t0) + 25 * k"
proof -
  have eq: "c + 25 * of_nat k - t0 = (c - t0) + of_nat (25 * k)" by simp
  have k: "25 * k < 2 ^ 32" using assms by simp
  have "unat (of_nat (25 * k) :: 32 word) = (25 * k) mod 2 ^ LENGTH(32)" by (rule unat_of_nat)
  then have uk: "unat (of_nat (25 * k) :: 32 word) = 25 * k" using k by simp
  have "unat (c - t0) + unat (of_nat (25 * k) :: 32 word) < 2 ^ LENGTH(32)"
    unfolding uk using assms by simp
  then have "unat ((c - t0) + of_nat (25 * k)) = unat (c - t0) + unat (of_nat (25 * k) :: 32 word)"
    by (simp only: unat_add_lem)
  then show ?thesis unfolding eq uk .
qed

text \<open>
  C6 (as amended). After the watchdog is fed at tick \<open>t0\<close> while its state is not
  ESTOP, its state is NORMAL and remains NORMAL for as long as \<open>now - t0 \<le> 250\<close> ms:
  a check of the watchdog task that runs within the limit changes nothing. Once
  \<open>now - t0\<close> exceeds 250 ms the state becomes TIMEOUT within one watchdog check
  period: with the task checking every 25 ms from a first check at tick \<open>c\<close> within
  the limit, the checks up to the limit leave the state as the feed left it, and the next
  check runs more than 250 and at most 275 ms after the feed and stores TIMEOUT (setting
  the \<open>HEARTBEAT_TIMEOUT\<close> fault), which the same check then turns into HOLD.
\<close>

theorem watchdog_normal_until_timeout:
  assumes "wd_s_state st \<noteq> WATCHDOG_STATE_ESTOP"
  shows "wd_s_state (watchdog_feed t0 st) = WATCHDOG_STATE_NORMAL \<and>
    (now - t0 \<le> 250 \<longrightarrow>
       watchdog_task_step now (watchdog_feed t0 st) = watchdog_feed t0 st) \<and>
    (250 < now - t0 \<longrightarrow>
       wd_s_state (watchdog_check_timeout (watchdog_feed t0 st)) = WATCHDOG_STATE_TIMEOUT \<and>
       watchdog_task_step now (watchdog_feed t0 st) =
         watchdog_check_hold (watchdog_check_timeout (watchdog_feed t0 st)) \<and>
       wd_s_state (watchdog_task_step now (watchdog_feed t0 st)) = WATCHDOG_STATE_HOLD \<and>
       fault_flags_is_set FAULT_HEARTBEAT_TIMEOUT (watchdog_task_step now (watchdog_feed t0 st))) \<and>
    (unat (c - t0) + 25 * n < 2 ^ 32 \<longrightarrow>
       wd_s_state (watchdog_task_entry n c (watchdog_feed t0 st)) =
         (if n = 0 \<or> unat (c - t0) + 25 * (n - 1) \<le> 250
          then WATCHDOG_STATE_NORMAL else WATCHDOG_STATE_HOLD)) \<and>
    (unat (c - t0) \<le> 250 \<longrightarrow>
       250 < unat (c - t0) + 25 * ((250 - unat (c - t0)) div 25 + 1) \<and>
       unat (c - t0) + 25 * ((250 - unat (c - t0)) div 25 + 1) \<le> 275 \<and>
       wd_s_state (watchdog_task_entry ((250 - unat (c - t0)) div 25 + 1) c
          (watchdog_feed t0 st)) = WATCHDOG_STATE_NORMAL \<and>
       wd_s_state (watchdog_task_entry (Suc ((250 - unat (c - t0)) div 25 + 1)) c
          (watchdog_feed t0 st)) = WATCHDOG_STATE_HOLD) \<and>
    (unat (c - t0) \<le> 250 \<longrightarrow>
       watchdog_task_entry ((250 - unat (c - t0)) div 25 + 1) c (watchdog_feed t0 st)
         = watchdog_feed t0 st \<and>
       250 < c + 25 * of_nat ((250 - unat (c - t0)) div 25 + 1) - t0 \<and>
       unat (c + 25 * of_nat ((250 - unat (c - t0)) div 25 + 1) - t0) \<le> 275 \<and>
       wd_s_state (watchdog_check_timeout
          (watchdog_task_entry ((250 - unat (c - t0)) div 25 + 1) c (watchdog_feed t0 st)))
         = WATCHDOG_STATE_TIMEOUT \<and>
       watchdog_task_entry (Suc ((250 - unat (c - t0)) div 25 + 1)) c (watchdog_feed t0 st)
         = watchdog_check_hold (watchdog_check_timeout (watchdog_feed t0 st)))"
proof -
  let ?st0 = "watchdog_feed t0 st"
  have n: "wd_s_state ?st0 = WATCHDOG_STATE_NORMAL" using assms by (rule feed_normal)
  have t: "s_last_feed_tick ?st0 = t0" by simp
  have 1: "now - t0 \<le> 250 \<longrightarrow> watchdog_task_step now ?st0 = ?st0"
    using step_normal [OF n, of now] t by simp
  have 2: "250 < now - t0 \<longrightarrow>
       wd_s_state (watchdog_check_timeout ?st0) = WATCHDOG_STATE_TIMEOUT \<and>
       watchdog_task_step now ?st0 = watchdog_check_hold (watchdog_check_timeout ?st0) \<and>
       wd_s_state (watchdog_task_step now ?st0) = WATCHDOG_STATE_HOLD \<and>
       fault_flags_is_set FAULT_HEARTBEAT_TIMEOUT (watchdog_task_step now ?st0)"
    using step_timeout [OF n, of now] check_timeout_fields(1) [OF n] t by simp
  have 3: "unat (c - t0) + 25 * m < 2 ^ 32 \<Longrightarrow>
       wd_s_state (watchdog_task_entry m c ?st0) =
         (if m = 0 \<or> unat (c - t0) + 25 * (m - 1) \<le> 250
          then WATCHDOG_STATE_NORMAL else WATCHDOG_STATE_HOLD)" for m
    using entry_normal [OF n, of c m] t by simp
  have 4: "unat (c - t0) \<le> 250 \<longrightarrow>
       250 < unat (c - t0) + 25 * ((250 - unat (c - t0)) div 25 + 1) \<and>
       unat (c - t0) + 25 * ((250 - unat (c - t0)) div 25 + 1) \<le> 275 \<and>
       wd_s_state (watchdog_task_entry ((250 - unat (c - t0)) div 25 + 1) c ?st0)
         = WATCHDOG_STATE_NORMAL \<and>
       wd_s_state (watchdog_task_entry (Suc ((250 - unat (c - t0)) div 25 + 1)) c ?st0)
         = WATCHDOG_STATE_HOLD"
  proof
    assume a: "unat (c - t0) \<le> 250"
    define e where "e = unat (c - t0)"
    define q where "q = (250 - e) div 25"
    have b1: "e + 25 * q \<le> 250" using a unfolding e_def q_def by presburger
    have b2: "250 < e + 25 * (q + 1)" using a unfolding e_def q_def by presburger
    have b3: "e + 25 * (q + 1) \<le> 275" using b1 by simp
    have s1: "wd_s_state (watchdog_task_entry (q + 1) c ?st0) = WATCHDOG_STATE_NORMAL"
      using 3 [of "q + 1"] b1 b3 unfolding e_def by simp
    have s2: "wd_s_state (watchdog_task_entry (Suc (q + 1)) c ?st0) = WATCHDOG_STATE_HOLD"
      using 3 [of "Suc (q + 1)"] b2 b3 unfolding e_def by simp
    show "250 < unat (c - t0) + 25 * ((250 - unat (c - t0)) div 25 + 1) \<and>
       unat (c - t0) + 25 * ((250 - unat (c - t0)) div 25 + 1) \<le> 275 \<and>
       wd_s_state (watchdog_task_entry ((250 - unat (c - t0)) div 25 + 1) c ?st0)
         = WATCHDOG_STATE_NORMAL \<and>
       wd_s_state (watchdog_task_entry (Suc ((250 - unat (c - t0)) div 25 + 1)) c ?st0)
         = WATCHDOG_STATE_HOLD"
      using b2 b3 s1 s2 unfolding e_def q_def by simp
  qed
  have 5: "unat (c - t0) \<le> 250 \<longrightarrow>
       watchdog_task_entry ((250 - unat (c - t0)) div 25 + 1) c ?st0 = ?st0 \<and>
       250 < c + 25 * of_nat ((250 - unat (c - t0)) div 25 + 1) - t0 \<and>
       unat (c + 25 * of_nat ((250 - unat (c - t0)) div 25 + 1) - t0) \<le> 275 \<and>
       wd_s_state (watchdog_check_timeout
          (watchdog_task_entry ((250 - unat (c - t0)) div 25 + 1) c ?st0))
         = WATCHDOG_STATE_TIMEOUT \<and>
       watchdog_task_entry (Suc ((250 - unat (c - t0)) div 25 + 1)) c ?st0
         = watchdog_check_hold (watchdog_check_timeout ?st0)"
  proof
    assume a: "unat (c - t0) \<le> 250"
    define K where "K = (250 - unat (c - t0)) div 25 + 1"
    have b1: "unat (c - t0) + 25 * (K - 1) \<le> 250" using a unfolding K_def by presburger
    have b2: "250 < unat (c - t0) + 25 * K" using a unfolding K_def by presburger
    have b3: "unat (c - t0) + 25 * K \<le> 275" using b1 unfolding K_def by simp
    have b4: "unat (c - s_last_feed_tick ?st0) + 25 * K < 2 ^ 32" unfolding t using b3 by simp
    have b5: "K = 0 \<or> unat (c - s_last_feed_tick ?st0) + 25 * (K - 1) \<le> 250"
      unfolding t using b1 by simp
    have e1: "watchdog_task_entry K c ?st0 = ?st0"
      using n b4 b5 by (rule entry_within_limit)
    have "unat (c - t0) + 25 * K < 2 ^ 32" using b3 by simp
    then have u: "unat (c + 25 * of_nat K - t0) = unat (c - t0) + 25 * K"
      by (rule elapsed_at_check)
    have "unat (250 :: 32 word) < unat (c + 25 * of_nat K - t0)" unfolding u using b2 by simp
    then have l: "250 < c + 25 * of_nat K - t0" by (simp only: word_less_nat_alt)
    then have l2: "250 < c + 25 * of_nat K - s_last_feed_tick ?st0" unfolding t .
    have u2: "unat (c + 25 * of_nat K - t0) \<le> 275" unfolding u by (rule b3)
    have tm: "wd_s_state (watchdog_check_timeout (watchdog_task_entry K c ?st0))
        = WATCHDOG_STATE_TIMEOUT"
      unfolding e1 using n by (rule check_timeout_fields(1))
    have "watchdog_task_entry (Suc K) c ?st0 =
        watchdog_task_step (c + 25 * of_nat K) (watchdog_task_entry K c ?st0)"
      by (rule entry_last_step)
    also have "\<dots> = watchdog_task_step (c + 25 * of_nat K) ?st0" unfolding e1 by (rule refl)
    also have "\<dots> = watchdog_check_hold (watchdog_check_timeout ?st0)"
      using n l2 by (rule step_timeout(2))
    finally have e2: "watchdog_task_entry (Suc K) c ?st0 =
        watchdog_check_hold (watchdog_check_timeout ?st0)" .
    show "watchdog_task_entry ((250 - unat (c - t0)) div 25 + 1) c ?st0 = ?st0 \<and>
       250 < c + 25 * of_nat ((250 - unat (c - t0)) div 25 + 1) - t0 \<and>
       unat (c + 25 * of_nat ((250 - unat (c - t0)) div 25 + 1) - t0) \<le> 275 \<and>
       wd_s_state (watchdog_check_timeout
          (watchdog_task_entry ((250 - unat (c - t0)) div 25 + 1) c ?st0))
         = WATCHDOG_STATE_TIMEOUT \<and>
       watchdog_task_entry (Suc ((250 - unat (c - t0)) div 25 + 1)) c ?st0
         = watchdog_check_hold (watchdog_check_timeout ?st0)"
      using e1 l u2 tm e2 unfolding K_def by blast
  qed
  show ?thesis using n 1 2 3 [of n] 4 5 by blast
qed

theorem watchdog_normal_until_timeout_witness:
  "wd_s_state app_v1_boot \<noteq> WATCHDOG_STATE_ESTOP \<and>
   (350 :: 32 word) - 100 \<le> 250 \<and>
   watchdog_task_step 350 (watchdog_feed 100 app_v1_boot) = watchdog_feed 100 app_v1_boot \<and>
   (250 :: 32 word) < 351 - 100 \<and>
   wd_s_state (watchdog_check_timeout (watchdog_feed 100 app_v1_boot)) = WATCHDOG_STATE_TIMEOUT \<and>
   wd_s_state (watchdog_task_step 351 (watchdog_feed 100 app_v1_boot)) = WATCHDOG_STATE_HOLD \<and>
   unat ((110 :: 32 word) - 100) \<le> 250 \<and>
   unat ((110 :: 32 word) - 100) + 25 * 11 < (2 :: nat) ^ 32 \<and>
   wd_s_state (watchdog_task_entry 10 110 (watchdog_feed 100 app_v1_boot)) = WATCHDOG_STATE_NORMAL \<and>
   wd_s_state (watchdog_task_entry 11 110 (watchdog_feed 100 app_v1_boot)) = WATCHDOG_STATE_HOLD \<and>
   watchdog_task_entry 10 110 (watchdog_feed 100 app_v1_boot) = watchdog_feed 100 app_v1_boot \<and>
   wd_s_state (watchdog_check_timeout
      (watchdog_task_entry 10 110 (watchdog_feed 100 app_v1_boot))) = WATCHDOG_STATE_TIMEOUT"
proof -
  have a: "wd_s_state app_v1_boot \<noteq> WATCHDOG_STATE_ESTOP" by (simp add: app_v1_boot_def)
  have u: "unat ((110 :: 32 word) - 100) = 10" by simp
  have K: "(250 - unat ((110 :: 32 word) - 100)) div 25 + 1 = 10" unfolding u by simp
  note w = watchdog_normal_until_timeout [OF a, where ?t0.0 = 100]
  have p1: "(350 :: 32 word) - 100 \<le> 250" by simp
  have p2: "(250 :: 32 word) < 351 - 100" by simp
  have p3: "unat ((110 :: 32 word) - 100) + 25 * 10 < (2 :: nat) ^ 32" unfolding u by simp
  have p4: "unat ((110 :: 32 word) - 100) + 25 * 11 < (2 :: nat) ^ 32" unfolding u by simp
  have p5: "unat ((110 :: 32 word) - 100) \<le> 250" unfolding u by simp
  have 1: "watchdog_task_step 350 (watchdog_feed 100 app_v1_boot) = watchdog_feed 100 app_v1_boot"
    using w [where now = 350 and c = 0 and n = 0] p1 by blast
  have 2: "wd_s_state (watchdog_task_step 351 (watchdog_feed 100 app_v1_boot)) = WATCHDOG_STATE_HOLD"
    using w [where now = 351 and c = 0 and n = 0] p2 by blast
  have t2: "wd_s_state (watchdog_check_timeout (watchdog_feed 100 app_v1_boot)) = WATCHDOG_STATE_TIMEOUT"
    using w [where now = 351 and c = 0 and n = 0] p2 by blast
  have "wd_s_state (watchdog_task_entry 10 110 (watchdog_feed 100 app_v1_boot)) =
      (if (10 :: nat) = 0 \<or> unat ((110 :: 32 word) - 100) + 25 * (10 - 1) \<le> 250
       then WATCHDOG_STATE_NORMAL else WATCHDOG_STATE_HOLD)"
    using w [where now = 0 and c = 110 and n = 10] p3 by blast
  then have 3: "wd_s_state (watchdog_task_entry 10 110 (watchdog_feed 100 app_v1_boot)) = WATCHDOG_STATE_NORMAL"
    unfolding u by simp
  have "wd_s_state (watchdog_task_entry 11 110 (watchdog_feed 100 app_v1_boot)) =
      (if (11 :: nat) = 0 \<or> unat ((110 :: 32 word) - 100) + 25 * (11 - 1) \<le> 250
       then WATCHDOG_STATE_NORMAL else WATCHDOG_STATE_HOLD)"
    using w [where now = 0 and c = 110 and n = 11] p4 by blast
  then have 4: "wd_s_state (watchdog_task_entry 11 110 (watchdog_feed 100 app_v1_boot)) = WATCHDOG_STATE_HOLD"
    unfolding u by simp
  have 5: "watchdog_task_entry ((250 - unat ((110 :: 32 word) - 100)) div 25 + 1) 110
        (watchdog_feed 100 app_v1_boot) = watchdog_feed 100 app_v1_boot"
    using w [where now = 0 and c = 110 and n = 0] p5 by blast
  have 6: "wd_s_state (watchdog_check_timeout
        (watchdog_task_entry ((250 - unat ((110 :: 32 word) - 100)) div 25 + 1) 110
           (watchdog_feed 100 app_v1_boot))) = WATCHDOG_STATE_TIMEOUT"
    using w [where now = 0 and c = 110 and n = 0] p5 by blast
  show ?thesis using a 1 2 t2 3 4 5 [unfolded K] 6 [unfolded K] p1 p2 p4 p5 by blast
qed

text \<open>
  C6, as stated for every feed, fails for a feed in ESTOP: the feed leaves the state in
  ESTOP, not NORMAL, and a check past the limit changes nothing, so the state never
  becomes TIMEOUT (ESTOP signalled, fed at 100, checked at 351).
\<close>

theorem watchdog_fed_in_estop_counterexample:
  "wd_s_state (watchdog_feed 100 (watchdog_signal_estop app_v1_boot)) \<noteq> WATCHDOG_STATE_NORMAL \<and>
   watchdog_task_step 351 (watchdog_feed 100 (watchdog_signal_estop app_v1_boot)) =
     watchdog_feed 100 (watchdog_signal_estop app_v1_boot) \<and>
   wd_s_state (watchdog_task_step 351 (watchdog_feed 100 (watchdog_signal_estop app_v1_boot)))
     \<noteq> WATCHDOG_STATE_TIMEOUT"
proof -
  have e: "wd_s_state (watchdog_feed 100 (watchdog_signal_estop app_v1_boot)) = WATCHDOG_STATE_ESTOP"
    by (simp add: feed_state)
  then have s: "watchdog_task_step 351 (watchdog_feed 100 (watchdog_signal_estop app_v1_boot)) =
     watchdog_feed 100 (watchdog_signal_estop app_v1_boot)"
    by (simp add: watchdog_task_step_def)
  show ?thesis unfolding s using e by simp
qed

text \<open>
  C9. If \<open>watchdog_clear_estop\<close> is called while the state is ESTOP and the last feed
  is 250 ms old or older, it returns failure (\<open>-1\<close>) and changes the state from ESTOP
  to HOLD; a single later \<open>watchdog_feed\<close> (at any tick) then returns the state to
  NORMAL and clears the \<open>HEARTBEAT_TIMEOUT\<close> fault bit, leaving the other fault bits
  as they were: the ESTOP latch does not survive a failed clear followed by one feed.
\<close>

theorem failed_clear_estop_then_feed_is_normal:
  assumes "wd_s_state st = WATCHDOG_STATE_ESTOP" and "250 \<le> now - s_last_feed_tick st"
  shows "watchdog_clear_estop now st = (- 1, st\<lparr>wd_s_state := WATCHDOG_STATE_HOLD\<rparr>) \<and>
         wd_s_state (snd (watchdog_clear_estop now st)) = WATCHDOG_STATE_HOLD \<and>
         wd_s_state (watchdog_feed now2 (snd (watchdog_clear_estop now st)))
           = WATCHDOG_STATE_NORMAL \<and>
         s_fault_flags (watchdog_feed now2 (snd (watchdog_clear_estop now st)))
           = s_fault_flags st AND NOT FAULT_HEARTBEAT_TIMEOUT \<and>
         \<not> fault_flags_is_set FAULT_HEARTBEAT_TIMEOUT
             (watchdog_feed now2 (snd (watchdog_clear_estop now st)))"
proof -
  have c: "watchdog_clear_estop now st = (- 1, st\<lparr>wd_s_state := WATCHDOG_STATE_HOLD\<rparr>)"
    using assms by (simp add: watchdog_clear_estop_def not_less)
  show ?thesis
    unfolding c
    by (simp add: watchdog_feed_def Let_def fault_flags_clear_def fault_flags_is_set_def
        and_not_and_self)
qed

theorem failed_clear_estop_then_feed_is_normal_witness:
  "wd_s_state (watchdog_signal_estop app_v1_boot) = WATCHDOG_STATE_ESTOP \<and>
   (250 :: 32 word) \<le> 250 - s_last_feed_tick (watchdog_signal_estop app_v1_boot) \<and>
   fst (watchdog_clear_estop 250 (watchdog_signal_estop app_v1_boot)) = - 1 \<and>
   wd_s_state (watchdog_feed 260 (snd (watchdog_clear_estop 250 (watchdog_signal_estop app_v1_boot))))
     = WATCHDOG_STATE_NORMAL"
proof -
  have a: "wd_s_state (watchdog_signal_estop app_v1_boot) = WATCHDOG_STATE_ESTOP" by simp
  have b: "(250 :: 32 word) \<le> 250 - s_last_feed_tick (watchdog_signal_estop app_v1_boot)"
    by (simp add: app_v1_boot_def)
  note t = failed_clear_estop_then_feed_is_normal [OF a b, of 260]
  from t have "watchdog_clear_estop 250 (watchdog_signal_estop app_v1_boot) =
      (- 1, (watchdog_signal_estop app_v1_boot)\<lparr>wd_s_state := WATCHDOG_STATE_HOLD\<rparr>)"
    by blast
  then have 1: "fst (watchdog_clear_estop 250 (watchdog_signal_estop app_v1_boot)) = - 1"
    by simp
  from t have 2: "wd_s_state (watchdog_feed 260
      (snd (watchdog_clear_estop 250 (watchdog_signal_estop app_v1_boot)))) = WATCHDOG_STATE_NORMAL"
    by blast
  show ?thesis using a b 1 2 by blast
qed

subsection \<open>Claim C8\<close>

text \<open>
  C8. The doorbell command identifiers should be shared by the producer and the consumer
  (HEARTBEAT \<open>0x10\<close>, MOTION\_PACKET \<open>0x20\<close>, MOTION\_ACK \<open>0x21\<close>, ESTOP
  \<open>0x23\<close>), so that a heartbeat notify sent by the GP side is dispatched as a heartbeat
  by the RT handler. On the code only MOTION\_PACKET agrees. \<open>Mailbox::sendHeartbeat\<close>
  sends \<open>cmd_id = 0x22\<close> (mailbox.h), which \<open>mailbox_cmd_handler\<close> of
  app\_main\_v1.c takes as an unknown command and leaves the state, and so the watchdog's
  last feed, unchanged; the handler feeds the watchdog on \<open>0x10\<close>. Likewise
  \<open>Mailbox::sendEstop\<close> sends \<open>0x23\<close>, unknown to the handler, whose ESTOP is
  \<open>0x30\<close>.
\<close>

theorem gp_heartbeat_is_unknown_to_rt_handler:
  "Mailbox_sendHeartbeat fd =
     (if fd < 0 then None
      else Some \<lparr>ip_id = 0, cmd_id = 0x22, block = False, mstime = 0, param_ptr = 0\<rparr>) \<and>
   mailbox_cmd_case 0x22 = DISPATCH_UNKNOWN \<and>
   mailbox_cmd_handler 0x22 param now st = st \<and>
   mailbox_cmd_case 0x10 = DISPATCH_HEARTBEAT \<and>
   mailbox_cmd_handler 0x10 param now st = watchdog_feed now st \<and>
   Mailbox_sendEstop fd =
     (if fd < 0 then None
      else Some \<lparr>ip_id = 0, cmd_id = 0x23, block = False, mstime = 0, param_ptr = 0\<rparr>) \<and>
   mailbox_cmd_case 0x23 = DISPATCH_UNKNOWN \<and>
   mailbox_cmd_case 0x30 = DISPATCH_ESTOP \<and>
   Mailbox_notifyPacketReady fd w =
     (if fd < 0 then None
      else Some \<lparr>ip_id = 0, cmd_id = 0x20, block = False, mstime = 0, param_ptr = w\<rparr>) \<and>
   mailbox_cmd_case 0x20 = DISPATCH_MOTION_PACKET \<and>
   mailbox_CMD_HEARTBEAT \<noteq> CMD_HEARTBEAT \<and> mailbox_CMD_ESTOP \<noteq> CMD_ESTOP"
  by (simp add: Mailbox_sendHeartbeat_def Mailbox_sendEstop_def Mailbox_notifyPacketReady_def
      Mailbox_sendCommand_def mailbox_CMD_HEARTBEAT_def mailbox_CMD_ESTOP_def
      mailbox_CMD_MOTION_PACKET_def mailbox_cmd_case_def mailbox_cmd_handler_def
      CMD_HEARTBEAT_def CMD_MOTION_PACKET_def CMD_ESTOP_def handle_heartbeat_def)

subsection \<open>Claim C7\<close>

lemma interp_q16_zero: "interp_q16 0 s t = s"
proof -
  have "ucast (ucast s :: 32 word) = s"
    by (rule ucast_up_ucast_id) (simp add: is_up)
  then show ?thesis by (simp add: interp_q16_def Let_def)
qed

lemma start_fields [simp]:
  "s_active (interpolator_start cur tgt d m)"
  "s_elapsed_ms (interpolator_start cur tgt d m) = 0"
  "s_duration_ms (interpolator_start cur tgt d m) = (if d > 0 then d else 1)"
  "s_target_us (interpolator_start cur tgt d m) = memcpy_pose tgt"
  "s_start_us (interpolator_start cur tgt d m) = memcpy_pose cur"
  "s_mode (interpolator_start cur tgt d m) = m"
  by (simp_all add: interpolator_start_def)

lemma tick_running:
  "s_active ip \<Longrightarrow> s_elapsed_ms ip + TICK_PERIOD_MS < s_duration_ms ip \<Longrightarrow>
   fst (interpolator_tick flt ip out) = False \<and>
   fst (snd (interpolator_tick flt ip out)) = ip\<lparr>s_elapsed_ms := s_elapsed_ms ip + TICK_PERIOD_MS\<rparr>"
  by (simp add: interpolator_tick_def Let_def not_le)

lemma tick_running_q16:
  "s_active ip \<Longrightarrow> s_elapsed_ms ip + TICK_PERIOD_MS < s_duration_ms ip \<Longrightarrow>
   s_mode ip = INTERP_MODE_Q16 \<Longrightarrow>
   interpolator_tick flt ip out =
     (False, ip\<lparr>s_elapsed_ms := s_elapsed_ms ip + TICK_PERIOD_MS\<rparr>,
      map (\<lambda>i. interp_q16 (push_bit 16 (s_elapsed_ms ip + TICK_PERIOD_MS) div s_duration_ms ip)
                 (s_start_us ip ! i) (s_target_us ip ! i)) [0..<SERVO_COUNT_TOTAL])"
  by (simp add: interpolator_tick_def Let_def not_le)

lemma ticks_Suc:
  "interpolator_ticks flt (Suc n) ip out =
     interpolator_tick flt (fst (snd (interpolator_ticks flt n ip out)))
       (snd (snd (interpolator_ticks flt n ip out)))"
  by (simp split: prod.splits)

lemma tick_period [simp]: "TICK_PERIOD_MS = 20"
  by (simp add: TICK_PERIOD_MS_def)

lemma multiple_of_20_not_max: "(of_nat (20 * k) :: 32 word) < 0xFFFFFFFF"
proof -
  have "even (of_nat (20 * k) :: 32 word)" by simp
  moreover have "odd (0xFFFFFFFF :: 32 word)" by simp
  ultimately have "(of_nat (20 * k) :: 32 word) \<noteq> 0xFFFFFFFF" by metis
  moreover have "(of_nat (20 * k) :: 32 word) \<le> 0xFFFFFFFF"
  proof -
    have "unat (of_nat (20 * k) :: 32 word) < 2 ^ 32"
      using unsigned_less [of "of_nat (20 * k) :: 32 word", where ?'a = nat] by simp
    then have "unat (of_nat (20 * k) :: 32 word) \<le> unat (0xFFFFFFFF :: 32 word)" by simp
    then show ?thesis by (simp only: word_le_nat_alt)
  qed
  ultimately show ?thesis by (simp only: order_less_le) simp
qed

lemma ticks_max_duration:
  "fst (snd (interpolator_ticks flt n (interpolator_start cur tgt 0xFFFFFFFF m) out)) =
     (interpolator_start cur tgt 0xFFFFFFFF m)\<lparr>s_elapsed_ms := of_nat (20 * n)\<rparr>"
proof (induction n)
  case 0
  show ?case by (simp add: interpolator_start_def)
next
  case (Suc n)
  let ?ip = "(interpolator_start cur tgt 0xFFFFFFFF m)\<lparr>s_elapsed_ms := of_nat (20 * n)\<rparr>"
  have a: "s_active ?ip" by simp
  have e: "s_elapsed_ms ?ip + TICK_PERIOD_MS = of_nat (20 * Suc n)" by simp
  have "s_elapsed_ms ?ip + TICK_PERIOD_MS < s_duration_ms ?ip"
    unfolding e using multiple_of_20_not_max [of "Suc n"] by simp
  from tick_running [OF a this]
  show ?case unfolding ticks_Suc Suc.IH e by simp
qed

lemma max_duration_never_completes:
  "s_active (fst (snd (interpolator_ticks flt n (interpolator_start cur tgt 0xFFFFFFFF m) out)))"
  unfolding ticks_max_duration by simp

text \<open>
  C7. For every start pose, target pose and duration \<open>> 0\<close>, the output should equal
  the target after \<open>\<lceil>duration / 20\<rceil>\<close> calls of \<open>interpolator_tick\<close>. The
  elapsed time is a 32-bit counter that grows by 20 per call and wraps around, so for the
  duration \<open>0xFFFFFFFF\<close> ms (a value the \<open>t_ms\<close> field can carry) it never reaches
  the duration: after \<open>\<lceil>4294967295 / 20\<rceil> = 214748365\<close> calls the counter has
  wrapped to 4, the call returns false, the interpolator is still active and, in Q16 mode
  from 1500 to 1800 on all channels, the output is back at 1500 on every channel; the
  interpolator stays active after any number of calls.
\<close>

theorem interpolation_never_completes_at_max_duration:
  "interpolator_ticks flt 214748365
     (interpolator_start
        [1500, 1500, 1500, 1500, 1500, 1500, 1500, 1500, 1500, 1500, 1500, 1500, 1500]
        [1800, 1800, 1800, 1800, 1800, 1800, 1800, 1800, 1800, 1800, 1800, 1800, 1800]
        0xFFFFFFFF INTERP_MODE_Q16) out =
     (False,
      \<lparr>s_start_us = [1500, 1500, 1500, 1500, 1500, 1500, 1500, 1500, 1500, 1500, 1500, 1500, 1500],
       s_target_us = [1800, 1800, 1800, 1800, 1800, 1800, 1800, 1800, 1800, 1800, 1800, 1800, 1800],
       s_duration_ms = 0xFFFFFFFF, s_elapsed_ms = 4, s_mode = INTERP_MODE_Q16, s_active = True\<rparr>,
      [1500, 1500, 1500, 1500, 1500, 1500, 1500, 1500, 1500, 1500, 1500, 1500, 1500]) \<and>
   (4294967295 + 19) div 20 = (214748365 :: nat) \<and>
   s_active (fst (snd (interpolator_ticks flt n
     (interpolator_start
        [1500, 1500, 1500, 1500, 1500, 1500, 1500, 1500, 1500, 1500, 1500, 1500, 1500]
        [1800, 1800, 1800, 1800, 1800, 1800, 1800, 1800, 1800, 1800, 1800, 1800, 1800]
        0xFFFFFFFF INTERP_MODE_Q16) out)))"
proof -
  let ?cur = "[1500, 1500, 1500, 1500, 1500, 1500, 1500, 1500, 1500, 1500, 1500, 1500, 1500 :: 16 word]"
  let ?tgt = "[1800, 1800, 1800, 1800, 1800, 1800, 1800, 1800, 1800, 1800, 1800, 1800, 1800 :: 16 word]"
  let ?start = "interpolator_start ?cur ?tgt 0xFFFFFFFF INTERP_MODE_Q16"
  let ?ip = "?start\<lparr>s_elapsed_ms := of_nat (20 * 214748364)\<rparr>"
  have n: "(214748365 :: nat) = Suc 214748364" by simp
  have s: "fst (snd (interpolator_ticks flt 214748364 ?start out)) = ?ip"
    by (rule ticks_max_duration)
  have a: "s_active ?ip" by simp
  have e: "s_elapsed_ms ?ip + TICK_PERIOD_MS = 4" by simp
  have d: "s_elapsed_ms ?ip + TICK_PERIOD_MS < s_duration_ms ?ip" unfolding e by simp
  have m: "s_mode ?ip = INTERP_MODE_Q16" by simp
  have q: "push_bit 16 (4 :: 32 word) div s_duration_ms ?ip = 0" by simp
  have t: "interpolator_tick flt ?ip o1 =
     (False, ?ip\<lparr>s_elapsed_ms := 4\<rparr>,
      map (\<lambda>i. interp_q16 0 (s_start_us ?ip ! i) (s_target_us ?ip ! i)) [0..<SERVO_COUNT_TOTAL])"
    for o1
    using tick_running_q16 [OF a d m, of flt o1] unfolding e q by simp
  have o: "map (\<lambda>i. interp_q16 0 (s_start_us ?ip ! i) (s_target_us ?ip ! i)) [0..<SERVO_COUNT_TOTAL]
      = ?cur"
    unfolding interp_q16_zero upt13
    by (simp add: memcpy_pose_def SERVO_COUNT_TOTAL_def)
  have r: "?ip\<lparr>s_elapsed_ms := 4\<rparr> =
      \<lparr>s_start_us = ?cur, s_target_us = ?tgt,
       s_duration_ms = 0xFFFFFFFF, s_elapsed_ms = 4, s_mode = INTERP_MODE_Q16, s_active = True\<rparr>"
    by (simp add: interpolator_start_def memcpy_pose_def SERVO_COUNT_TOTAL_def)
  have 1: "interpolator_ticks flt 214748365 ?start out = (False,
      \<lparr>s_start_us = ?cur, s_target_us = ?tgt,
       s_duration_ms = 0xFFFFFFFF, s_elapsed_ms = 4, s_mode = INTERP_MODE_Q16, s_active = True\<rparr>,
      ?cur)"
    unfolding n ticks_Suc s t o r by (rule refl)
  have 2: "(4294967295 + 19) div 20 = (214748365 :: nat)" by simp
  show ?thesis using 1 2 max_duration_never_completes [of flt n ?cur ?tgt INTERP_MODE_Q16 out]
    by blast
qed

subsection \<open>Durations for which the endpoint is reached\<close>

text \<open>
  As long as the elapsed counter cannot wrap before it reaches the duration, that is for
  durations up to 4294967280 ms, the endpoint is reached exactly after
  \<open>\<lceil>duration / 20\<rceil>\<close> calls, in either mode; and a duration of 0 is stored as
  1 ms, so that the first call completes.
\<close>

lemma unat_of_nat_small:
  "n < 2 ^ 32 \<Longrightarrow> unat (of_nat n :: 32 word) = n"
proof -
  assume a: "n < 2 ^ 32"
  have "unat (of_nat n :: 32 word) = n mod 2 ^ LENGTH(32)" by (rule unat_of_nat)
  then show ?thesis using a by simp
qed

lemma ticks_before_end:
  assumes "0 < d" and "20 * k < unat d"
  shows "fst (snd (interpolator_ticks flt k (interpolator_start cur tgt d m) out)) =
     (interpolator_start cur tgt d m)\<lparr>s_elapsed_ms := of_nat (20 * k)\<rparr>"
  using assms(2)
proof (induction k)
  case 0
  show ?case by (simp add: interpolator_start_def)
next
  case (Suc k)
  let ?ip = "(interpolator_start cur tgt d m)\<lparr>s_elapsed_ms := of_nat (20 * k)\<rparr>"
  have ih: "fst (snd (interpolator_ticks flt k (interpolator_start cur tgt d m) out)) = ?ip"
    using Suc by simp
  have a: "s_active ?ip" by simp
  have e: "s_elapsed_ms ?ip + TICK_PERIOD_MS = of_nat (20 * Suc k)" by simp
  have "unat d < 2 ^ 32" using unsigned_less [of d, where ?'a = nat] by simp
  then have b: "20 * Suc k < 2 ^ 32" using Suc.prems by linarith
  have u: "unat (of_nat (20 * Suc k) :: 32 word) = 20 * Suc k"
    using b by (rule unat_of_nat_small)
  have dd: "s_duration_ms ?ip = d" using assms(1) by simp
  have "unat (of_nat (20 * Suc k) :: 32 word) < unat d" unfolding u using Suc.prems .
  then have "(of_nat (20 * Suc k) :: 32 word) < d" by (simp only: word_less_nat_alt)
  then have "s_elapsed_ms ?ip + TICK_PERIOD_MS < s_duration_ms ?ip" unfolding e dd .
  from tick_running [OF a this]
  show ?case unfolding ticks_Suc ih e by simp
qed


lemma interpolator_reaches_target_bounded:
  assumes "0 < d" and "unat d \<le> 4294967280" and "length tgt = SERVO_COUNT_TOTAL"
  shows "fst (interpolator_ticks flt ((unat d + 19) div 20) (interpolator_start cur tgt d m) out)"
    and "snd (snd (interpolator_ticks flt ((unat d + 19) div 20)
            (interpolator_start cur tgt d m) out)) = tgt"
proof -
  define n where "n = (unat d + 19) div 20"
  have dpos: "0 < unat d" using assms(1) by (simp add: word_less_nat_alt)
  have nb: "unat d \<le> 20 * n" unfolding n_def by arith
  have npos: "0 < n" using nb dpos by (cases n) simp_all
  then obtain k where k: "n = Suc k" by (cases n) auto
  have "20 * n \<le> unat d + 19" unfolding n_def by arith
  then have kb: "20 * k < unat d" unfolding k by simp
  have "n \<le> (4294967280 + 19) div 20"
    unfolding n_def using assms(2) by (intro div_le_mono) simp
  then have nu: "20 * n < 2 ^ 32" by simp
  let ?ip = "(interpolator_start cur tgt d m)\<lparr>s_elapsed_ms := of_nat (20 * k)\<rparr>"
  have s: "fst (snd (interpolator_ticks flt k (interpolator_start cur tgt d m) out)) = ?ip"
    using assms(1) kb by (rule ticks_before_end)
  have a: "s_active ?ip" by simp
  have e: "s_elapsed_ms ?ip + TICK_PERIOD_MS = of_nat (20 * n)" unfolding k by simp
  have u: "unat (of_nat (20 * n) :: 32 word) = 20 * n"
    using nu by (rule unat_of_nat_small)
  have dd: "s_duration_ms ?ip = d" using assms(1) by simp
  have "unat d \<le> unat (of_nat (20 * n) :: 32 word)" unfolding u by (rule nb)
  then have "d \<le> (of_nat (20 * n) :: 32 word)" by (simp only: word_le_nat_alt)
  then have ge: "s_duration_ms ?ip \<le> s_elapsed_ms ?ip + TICK_PERIOD_MS" unfolding e dd .
  have t: "interpolator_tick flt ?ip o1 =
     (True, ?ip\<lparr>s_elapsed_ms := s_elapsed_ms ?ip + TICK_PERIOD_MS, s_active := False\<rparr>,
      memcpy_pose (s_target_us ?ip))" for o1
    using a ge by (rule tick_snap)
  have m: "memcpy_pose (s_target_us ?ip) = tgt"
    using assms(3) by (simp add: memcpy_pose_def)
  show "fst (interpolator_ticks flt ((unat d + 19) div 20) (interpolator_start cur tgt d m) out)"
    unfolding n_def [symmetric] k ticks_Suc s t by simp
  show "snd (snd (interpolator_ticks flt ((unat d + 19) div 20)
            (interpolator_start cur tgt d m) out)) = tgt"
    unfolding n_def [symmetric] k ticks_Suc s t using m by simp
qed

lemma interpolator_zero_duration:
  assumes "length tgt = SERVO_COUNT_TOTAL"
  shows "s_duration_ms (interpolator_start cur tgt 0 m) = 1"
    and "interpolator_tick flt (interpolator_start cur tgt 0 m) out =
      (True, (interpolator_start cur tgt 0 m)\<lparr>s_elapsed_ms := 20, s_active := False\<rparr>, tgt)"
proof -
  show "s_duration_ms (interpolator_start cur tgt 0 m) = 1" by simp
  have "s_duration_ms (interpolator_start cur tgt 0 m)
      \<le> s_elapsed_ms (interpolator_start cur tgt 0 m) + TICK_PERIOD_MS" by simp
  from tick_snap [OF start_fields(1) this, of flt out]
  show "interpolator_tick flt (interpolator_start cur tgt 0 m) out =
      (True, (interpolator_start cur tgt 0 m)\<lparr>s_elapsed_ms := 20, s_active := False\<rparr>, tgt)"
    using assms by (simp add: memcpy_pose_def)
qed

subsection \<open>The ESTOP latch of the motion loop after a failed clear\<close>

text \<open>
  The motion loop leaves ESTOP only through the watchdog state. After a failed
  \<open>watchdog_clear_estop\<close> the watchdog is in HOLD, the next packet feeds it back to
  NORMAL, and the loop moves to that packet's pose.
\<close>

lemma estop_latch_lost_after_failed_clear:
  assumes "wd_s_state st = WATCHDOG_STATE_ESTOP" and "250 \<le> now - s_last_feed_tick st"
    and "flags pkt AND FLAG_ESTOP = 0" and "flags pkt AND FLAG_HOLD = 0" and "t_ms pkt \<le> 20"
  shows "fst (watchdog_clear_estop now st) = - 1"
    and "mt_s_current_us (motion_task_iter flt (Some pkt) now2 (snd (watchdog_clear_estop now st))) =
           memcpy_pose (memcpy_pose (map clamp_servo_us (take SERVO_COUNT_TOTAL (servo_us pkt))))"
    and "mt_s_state (motion_task_iter flt (Some pkt) now2 (snd (watchdog_clear_estop now st))) =
           MOTION_STATE_IDLE"
proof -
  have c: "watchdog_clear_estop now st = (- 1, st\<lparr>wd_s_state := WATCHDOG_STATE_HOLD\<rparr>)"
    using assms(1,2) by (simp add: watchdog_clear_estop_def not_less)
  show "fst (watchdog_clear_estop now st) = - 1" unfolding c by simp
  have w: "wd_s_state (st\<lparr>wd_s_state := WATCHDOG_STATE_HOLD\<rparr>) \<noteq> WATCHDOG_STATE_ESTOP" by simp
  show "mt_s_current_us (motion_task_iter flt (Some pkt) now2 (snd (watchdog_clear_estop now st))) =
           memcpy_pose (memcpy_pose (map clamp_servo_us (take SERVO_COUNT_TOTAL (servo_us pkt))))"
    unfolding c snd_conv by (rule move_snap(1) [OF assms(3,4) w assms(5)])
  show "mt_s_state (motion_task_iter flt (Some pkt) now2 (snd (watchdog_clear_estop now st))) =
           MOTION_STATE_IDLE"
    unfolding c snd_conv by (rule move_snap(2) [OF assms(3,4) w assms(5)])
qed

end
